theory Spec2Isabelle
  imports Complex_Main
begin

section \<open>Arrays, errors and numeric primitives\<close>

text \<open>
  The simulation of \<^verbatim>\<open>main.py\<close> keeps dense three-dimensional arrays indexed
  \<open>(y, z, x)\<close>. An array is modelled as a function of its three indices; the shape is
  carried by the configuration (\<open>N_Y\<close>, \<open>N_Z\<close>, \<open>N_X\<close>) and every slice of the source
  becomes an explicit range condition on the indices. The slabs of shape
  \<open>(N_Y, 1, N_X)\<close> are functions of \<open>(y, x)\<close>.

  A 64-bit floating-point number of the source is either a number, idealised as a real
  (exact arithmetic, no overflow), or a not-a-number. Every array of the state is carried
  as its real values together with a mask that tells which entries are not-a-number;
  where the mask is set the real value of the entry has no meaning. An arithmetic
  operation, \<^verbatim>\<open>np.minimum\<close> and \<^verbatim>\<open>np.maximum\<close> yield a not-a-number as soon as one
  operand is one, and a comparison with a not-a-number is false.
\<close>

type_synonym array3 = "nat \<Rightarrow> nat \<Rightarrow> nat \<Rightarrow> real"
type_synonym array2 = "nat \<Rightarrow> nat \<Rightarrow> real"
type_synonym mask3 = "nat \<Rightarrow> nat \<Rightarrow> nat \<Rightarrow> bool"
type_synonym mask2 = "nat \<Rightarrow> nat \<Rightarrow> bool"

datatype error = ZeroDivisionError | IndexError | ValueError | SaturationOverLimit

text \<open>
  \<^verbatim>\<open>x ** a\<close> on arrays, for an exponent \<open>a\<close> that is a number. \<^verbatim>\<open>x ** 0\<close> is 1 for
  every \<open>x\<close>, a not-a-number included. For a non-negative base the result is the real
  power. For a negative base it is the integer power when the exponent is a whole number,
  and a not-a-number otherwise: \<open>np_power_nan\<close> tells when the result is a not-a-number
  (\<open>x_nan\<close> says that the base is one) and \<open>np_power\<close> gives the value when it is not.
  (With base 0 and a negative exponent the source yields an infinity, which is outside
  this model; the exponents of the program are positive.)
\<close>

definition np_power :: "real \<Rightarrow> real \<Rightarrow> real" where
  "np_power x a =
     (if a = 0 then 1
      else if x < 0 then (if a = of_int \<lfloor>a\<rfloor> then x powi \<lfloor>a\<rfloor> else 0)
      else x powr a)"

definition np_power_nan :: "real \<Rightarrow> bool \<Rightarrow> real \<Rightarrow> bool" where
  "np_power_nan x x_nan a = (a \<noteq> 0 \<and> (x_nan \<or> (x < 0 \<and> a \<noteq> of_int \<lfloor>a\<rfloor>)))"

text \<open>
  A scalar of the source that may fail to be a number: the outcome of a floating-point
  division of two array scalars (a division by zero does not raise, it yields an
  infinity, or a not-a-number for \<open>0 / 0\<close>) and of a reduction over an array.
\<close>

datatype np_float = Finite real | Infinite | NaN


text \<open>Python's \<^verbatim>\<open>round(n / 2)\<close> for a natural number \<open>n\<close>: halves go to the even neighbour.\<close>

definition round_half :: "nat \<Rightarrow> nat" where
  "round_half n = (let q = n div 2 in if even n then q else if even q then q else q + 1)"

section \<open>Constants and configuration\<close>

definition G :: real where "G = 981 / 100"
definition THETA :: real where "THETA = 35 / 100"
definition KAPPA :: real where "KAPPA = 2293577981651376 / 10 ^ 25"
definition MU :: real where "MU = 9 / 10000"
definition RHO :: real where "RHO = 1000"
definition MU_INVERSE :: real where "MU_INVERSE = 1 / MU"
definition RHO_G :: real where "RHO_G = RHO * G"
definition Kps :: real where "Kps = 100000"
definition LAMBDA :: real where "LAMBDA = 8 / 10"
definition LIM_VALUE :: real where "LIM_VALUE = 999 / 1000"
definition dtBase :: real where "dtBase = (1 / 1000) * (25 / 100)"

text \<open>
  The values a run is configured with. The grid dimensions are taken as given (the source
  derives them with \<^verbatim>\<open>math.floor\<close> from floating-point quotients). The retention
  curves and the van Genuchten exponent \<open>M_Q\<close> come from the module
  \<^verbatim>\<open>retention_curves\<close>, which is a parameter here: a curve is applied cell by cell.
  \<open>random_perm\<close> is the noise field produced by the random generator (or loaded from a
  file).
\<close>

record config =
  dL :: real
  S0 :: real
  N_Y :: nat
  N_Z :: nat
  N_X :: nat
  Q0 :: real
  FLUX_FULL :: bool
  FLUX_MIDDLE :: bool
  SATURATION_RESIDUAL :: real
  WHICH_BRANCH :: string
  M_Q :: real
  retention_curve_wet :: "real \<Rightarrow> real"
  retention_curve_drain :: "real \<Rightarrow> real"
  RANDOMIZATION_INTRINSIC_PERMEABILITY :: bool
  random_perm :: array3

definition dx_PAR :: "config \<Rightarrow> real" where
  "dx_PAR c = dL c / (1 / 100)"

definition M_Q_inverse :: "config \<Rightarrow> real" where
  "M_Q_inverse c = 1 / M_Q c"

definition dt :: "config \<Rightarrow> real" where
  "dt c = (dx_PAR c) ^ 2 * dtBase"


definition SM :: "config \<Rightarrow> real" where
  "SM c = dt c / (THETA * dL c)"


section \<open>Intrinsic permeability\<close>

text \<open>
  \<^verbatim>\<open>multiply = np.zeros_like(random_perm)\<close>, then the cells with positive noise and
  the cells with negative noise are overwritten by two masked assignments. A cell whose
  noise is exactly zero is in neither mask and keeps the zero it was allocated with.
\<close>

definition multiply_cell :: "real \<Rightarrow> real" where
  "multiply_cell r = (if r > 0 then 1 + r else if r < 0 then 1 / (1 - r) else 0)"

definition multiply :: "config \<Rightarrow> array3" where
  "multiply c y z x =
     (if RANDOMIZATION_INTRINSIC_PERMEABILITY c then multiply_cell (random_perm c y z x) else 1)"

definition k_rnd :: "config \<Rightarrow> array3" where
  "k_rnd c y z x = KAPPA * multiply c y z x"

definition k_rnd_sqrt :: "config \<Rightarrow> array3" where
  "k_rnd_sqrt c y z x = sqrt (k_rnd c y z x)"

text \<open>Face conductances: entry \<open>i\<close> along the axis couples the cells \<open>i\<close> and \<open>i + 1\<close>.\<close>

definition k_rnd_q1 :: "config \<Rightarrow> array3" where
  "k_rnd_q1 c y z x = MU_INVERSE * k_rnd_sqrt c y z x * k_rnd_sqrt c y z (x + 1)"

definition k_rnd_q2 :: "config \<Rightarrow> array3" where
  "k_rnd_q2 c y z x = MU_INVERSE * k_rnd_sqrt c y z x * k_rnd_sqrt c y (z + 1) x"

definition k_rnd_q3 :: "config \<Rightarrow> array3" where
  "k_rnd_q3 c y z x = MU_INVERSE * k_rnd_sqrt c y z x * k_rnd_sqrt c (y + 1) z x"

section \<open>State and initialisation\<close>

record state =
  S :: array3
  P :: array3
  Q_X :: array3
  Q_Y :: array3
  Q_Z :: array3
  Q :: array3
  bound_flux :: array2
  S_nan :: mask3
  P_nan :: mask3
  Q_X_nan :: mask3
  Q_Y_nan :: mask3
  Q_Z_nan :: mask3
  Q_nan :: mask3
  bound_flux_nan :: mask2

definition zeros3 :: array3 where
  "zeros3 = (\<lambda>y z x. 0)"

text \<open>The masks of an array, and of a slab, all of whose entries are numbers.\<close>

definition numbers3 :: mask3 where
  "numbers3 = (\<lambda>y z x. False)"

definition numbers2 :: mask2 where
  "numbers2 = (\<lambda>y x. False)"

definition S0_ini :: "config \<Rightarrow> array3" where
  "S0_ini c = (\<lambda>y z x. 1 * S0 c)"

text \<open>
  The top boundary condition. With \<open>FLUX_FULL\<close> alone the whole top row of \<open>Q_Z\<close> is
  set to \<open>Q0\<close>. With \<open>FLUX_MIDDLE\<close> alone the source assigns to the slice
  \<^verbatim>\<open>Q_Z[pom_y:pom_y, 0, pom_x:pom_x + vec]\<close>, whose \<open>y\<close> range is empty, so nothing is
  written. In every other case the single cell \<^verbatim>\<open>(round(N_Y / 2), 0, round(N_X / 2))\<close>
  is set, which raises when that index is outside the array.
\<close>

definition Q_Z_init :: "config \<Rightarrow> error + array3" where
  "Q_Z_init c =
     (if FLUX_FULL c \<and> \<not> FLUX_MIDDLE c then
        Inr (\<lambda>y z x. if z = 0 \<and> y < N_Y c \<and> x < N_X c then Q0 c else 0)
      else if \<not> FLUX_FULL c \<and> FLUX_MIDDLE c then
        Inr zeros3
      else if round_half (N_Y c) < N_Y c \<and> round_half (N_X c) < N_X c then
        Inr (\<lambda>y z x. if y = round_half (N_Y c) \<and> z = 0 \<and> x = round_half (N_X c)
                      then Q0 c else 0)
      else Inl IndexError)"

definition P_init :: "config \<Rightarrow> array3" where
  "P_init c = (\<lambda>y z x.
     if WHICH_BRANCH c = ''wet'' then retention_curve_wet c (S0_ini c y z x)
     else retention_curve_drain c (S0_ini c y z x))"

definition init :: "config \<Rightarrow> error + state" where
  "init c =
     (if dL c = 0 \<or> M_Q c = 0 then Inl ZeroDivisionError
      else case Q_Z_init c of
        Inl e \<Rightarrow> Inl e
      | Inr qz \<Rightarrow> Inr \<lparr>S = S0_ini c, P = P_init c, Q_X = zeros3, Q_Y = zeros3, Q_Z = qz,
                      Q = zeros3, bound_flux = (\<lambda>y x. 0),
                      S_nan = numbers3, P_nan = numbers3, Q_X_nan = numbers3,
                      Q_Y_nan = numbers3, Q_Z_nan = numbers3, Q_nan = numbers3,
                      bound_flux_nan = numbers2\<rparr>)"

section \<open>One iteration of the main loop\<close>

subsection \<open>Saturation update\<close>

definition Q_cell :: "state \<Rightarrow> array3" where
  "Q_cell s y z x =
     Q_X s y z x - Q_X s y z (x + 1)
     + Q_Y s y z x - Q_Y s (y + 1) z x
     + Q_Z s y z x - Q_Z s y (z + 1) x"

text \<open>\<^verbatim>\<open>S_new = S + SM * Q\<close>, before the bottom boundary is applied.\<close>

definition S_flux :: "config \<Rightarrow> state \<Rightarrow> array3" where
  "S_flux c s y z x = S s y z x + SM c * Q_cell s y z x"

definition bound_lim :: "config \<Rightarrow> state \<Rightarrow> array2" where
  "bound_lim c s y x = min (S_flux c s y (N_Z c - 1) x) (SATURATION_RESIDUAL c)"

text \<open>\<open>S_new\<close> after the in-place update of its bottom layer \<open>z = N_Z - 1\<close>.\<close>

definition S_new :: "config \<Rightarrow> state \<Rightarrow> array3" where
  "S_new c s y z x =
     (if Suc z = N_Z c
      then max (S_flux c s y z x + SM c * bound_flux s y x) (bound_lim c s y x)
      else S_flux c s y z x)"

text \<open>
  The masks of these arrays. \<open>SM\<close> and the residual threshold are numbers, so a cell of
  \<open>Q\<close> is a not-a-number when one of its six faces is, and the bottom layer after the
  boundary update when the cell itself or the boundary flux is.
\<close>

definition Q_cell_nan :: "state \<Rightarrow> mask3" where
  "Q_cell_nan s y z x =
     (Q_X_nan s y z x \<or> Q_X_nan s y z (x + 1)
      \<or> Q_Y_nan s y z x \<or> Q_Y_nan s (y + 1) z x
      \<or> Q_Z_nan s y z x \<or> Q_Z_nan s y (z + 1) x)"

definition S_flux_nan :: "config \<Rightarrow> state \<Rightarrow> mask3" where
  "S_flux_nan c s y z x = (S_nan s y z x \<or> Q_cell_nan s y z x)"

definition bound_lim_nan :: "config \<Rightarrow> state \<Rightarrow> mask2" where
  "bound_lim_nan c s y x = S_flux_nan c s y (N_Z c - 1) x"

definition S_new_nan :: "config \<Rightarrow> state \<Rightarrow> mask3" where
  "S_new_nan c s y z x =
     (if Suc z = N_Z c
      then (S_flux_nan c s y z x \<or> bound_flux_nan s y x) \<or> bound_lim_nan c s y x
      else S_flux_nan c s y z x)"

subsection \<open>Pressure update with hysteresis\<close>

definition P_relaxed :: "config \<Rightarrow> state \<Rightarrow> array3" where
  "P_relaxed c s y z x = P s y z x + Kps * (S_new c s y z x - S s y z x)"

definition P_wet :: "config \<Rightarrow> state \<Rightarrow> array3" where
  "P_wet c s y z x = retention_curve_wet c (S s y z x)"

definition P_drain :: "config \<Rightarrow> state \<Rightarrow> array3" where
  "P_drain c s y z x = retention_curve_drain c (S s y z x)"

definition wet :: "config \<Rightarrow> state \<Rightarrow> nat \<Rightarrow> nat \<Rightarrow> nat \<Rightarrow> bool" where
  "wet c s y z x = (S_new c s y z x - S s y z x > 0)"

definition drain :: "config \<Rightarrow> state \<Rightarrow> nat \<Rightarrow> nat \<Rightarrow> nat \<Rightarrow> bool" where
  "drain c s y z x = (S s y z x - S_new c s y z x > 0)"

text \<open>The two masked assignments \<^verbatim>\<open>P[wet] = ...\<close> and \<^verbatim>\<open>P[drain] = ...\<close>, in order.\<close>

definition P_new :: "config \<Rightarrow> state \<Rightarrow> array3" where
  "P_new c s y z x =
     (let p = P_relaxed c s y z x;
          p1 = (if wet c s y z x then min p (P_wet c s y z x) else p)
      in if drain c s y z x then max p1 (P_drain c s y z x) else p1)"

text \<open>
  The relaxed pressure is a not-a-number when the old pressure or one of the two
  saturations is. A cell is in neither of the masks \<open>wet\<close> and \<open>drain\<close> of the source
  when one of its saturations is a not-a-number, and the minimum and the maximum keep a
  not-a-number: the mask of the new pressure is that of the relaxed pressure. (The
  retention curves are taken to map numbers to numbers.)
\<close>

definition P_relaxed_nan :: "config \<Rightarrow> state \<Rightarrow> mask3" where
  "P_relaxed_nan c s y z x = (P_nan s y z x \<or> S_new_nan c s y z x \<or> S_nan s y z x)"

definition P_new_nan :: "config \<Rightarrow> state \<Rightarrow> mask3" where
  "P_new_nan c s y z x = P_relaxed_nan c s y z x"

subsection \<open>Flux update\<close>

definition rel_perm :: "config \<Rightarrow> real \<Rightarrow> real" where
  "rel_perm c v =
     np_power v LAMBDA * (1 - np_power (1 - np_power v (M_Q_inverse c)) (M_Q c)) ^ 2"

text \<open>
  When the relative permeability of a saturation \<open>v\<close> is a not-a-number (\<open>v_nan\<close> says
  that \<open>v\<close> is one): the two outer powers of the formula decide, the square does not add
  any.
\<close>

definition rel_perm_nan :: "config \<Rightarrow> real \<Rightarrow> bool \<Rightarrow> bool" where
  "rel_perm_nan c v v_nan =
     (np_power_nan v v_nan LAMBDA
      \<or> np_power_nan (1 - np_power v (M_Q_inverse c))
           (np_power_nan v v_nan (M_Q_inverse c)) (M_Q c))"

definition perm :: "config \<Rightarrow> state \<Rightarrow> array3" where
  "perm c s y z x = rel_perm c (S_new c s y z x)"

definition perm_nan :: "config \<Rightarrow> state \<Rightarrow> mask3" where
  "perm_nan c s y z x = rel_perm_nan c (S_new c s y z x) (S_new_nan c s y z x)"

definition perm_sqrt :: "config \<Rightarrow> state \<Rightarrow> array3" where
  "perm_sqrt c s y z x = sqrt (perm c s y z x)"

text \<open>\<^verbatim>\<open>np.sqrt\<close> of a negative number is a not-a-number.\<close>

definition perm_sqrt_nan :: "config \<Rightarrow> state \<Rightarrow> mask3" where
  "perm_sqrt_nan c s y z x = (perm_nan c s y z x \<or> perm c s y z x < 0)"

text \<open>
  Each flux array is overwritten on its interior faces only:
  \<^verbatim>\<open>Q_X[:, :, 1:N_X]\<close>, \<^verbatim>\<open>Q_Y[1:N_Y, :, :]\<close>, \<^verbatim>\<open>Q_Z[:, 1:N_Z, :]\<close>.
\<close>

definition Q_X_new :: "config \<Rightarrow> state \<Rightarrow> array3" where
  "Q_X_new c s y z x =
     (if y < N_Y c \<and> z < N_Z c \<and> 1 \<le> x \<and> x < N_X c then
        k_rnd_q1 c y z (x - 1) * perm_sqrt c s y z (x - 1) * perm_sqrt c s y z x
        * (- ((P_new c s y z x - P_new c s y z (x - 1)) / dL c))
      else Q_X s y z x)"

definition Q_Y_new :: "config \<Rightarrow> state \<Rightarrow> array3" where
  "Q_Y_new c s y z x =
     (if 1 \<le> y \<and> y < N_Y c \<and> z < N_Z c \<and> x < N_X c then
        k_rnd_q3 c (y - 1) z x * perm_sqrt c s (y - 1) z x * perm_sqrt c s y z x
        * (- ((P_new c s y z x - P_new c s (y - 1) z x) / dL c))
      else Q_Y s y z x)"

definition Q_Z_new :: "config \<Rightarrow> state \<Rightarrow> array3" where
  "Q_Z_new c s y z x =
     (if y < N_Y c \<and> 1 \<le> z \<and> z < N_Z c \<and> x < N_X c then
        k_rnd_q2 c y (z - 1) x * perm_sqrt c s y (z - 1) x * perm_sqrt c s y z x
        * (RHO_G - ((P_new c s y z x - P_new c s y (z - 1) x) / dL c))
      else Q_Z s y z x)"

definition bound_flux_new :: "config \<Rightarrow> state \<Rightarrow> array2" where
  "bound_flux_new c s y x =
     (if y < N_Y c \<and> x < N_X c then
        MU_INVERSE * k_rnd c y (N_Z c - 1) x * perm c s y (N_Z c - 1) x
        * (RHO_G - ((0 - P_new c s y (N_Z c - 1) x) / dL c))
      else bound_flux s y x)"

text \<open>
  The masks of the fluxes: on an interior face the flux is a not-a-number when one of
  its factors from the two adjacent cells is (the conductances are numbers); the other
  faces keep what they held.
\<close>

definition Q_X_new_nan :: "config \<Rightarrow> state \<Rightarrow> mask3" where
  "Q_X_new_nan c s y z x =
     (if y < N_Y c \<and> z < N_Z c \<and> 1 \<le> x \<and> x < N_X c then
        perm_sqrt_nan c s y z (x - 1) \<or> perm_sqrt_nan c s y z x
        \<or> P_new_nan c s y z x \<or> P_new_nan c s y z (x - 1)
      else Q_X_nan s y z x)"

definition Q_Y_new_nan :: "config \<Rightarrow> state \<Rightarrow> mask3" where
  "Q_Y_new_nan c s y z x =
     (if 1 \<le> y \<and> y < N_Y c \<and> z < N_Z c \<and> x < N_X c then
        perm_sqrt_nan c s (y - 1) z x \<or> perm_sqrt_nan c s y z x
        \<or> P_new_nan c s y z x \<or> P_new_nan c s (y - 1) z x
      else Q_Y_nan s y z x)"

definition Q_Z_new_nan :: "config \<Rightarrow> state \<Rightarrow> mask3" where
  "Q_Z_new_nan c s y z x =
     (if y < N_Y c \<and> 1 \<le> z \<and> z < N_Z c \<and> x < N_X c then
        perm_sqrt_nan c s y (z - 1) x \<or> perm_sqrt_nan c s y z x
        \<or> P_new_nan c s y z x \<or> P_new_nan c s y (z - 1) x
      else Q_Z_nan s y z x)"

definition bound_flux_new_nan :: "config \<Rightarrow> state \<Rightarrow> mask2" where
  "bound_flux_new_nan c s y x =
     (if y < N_Y c \<and> x < N_X c then
        perm_nan c s y (N_Z c - 1) x \<or> P_new_nan c s y (N_Z c - 1) x
      else bound_flux_nan s y x)"

text \<open>The state at the end of the loop body, before the guard on the saturation.\<close>

definition advance :: "config \<Rightarrow> state \<Rightarrow> state" where
  "advance c s =
     \<lparr>S = S_new c s, P = P_new c s, Q_X = Q_X_new c s, Q_Y = Q_Y_new c s, Q_Z = Q_Z_new c s,
      Q = Q_cell s, bound_flux = bound_flux_new c s,
      S_nan = S_new_nan c s, P_nan = P_new_nan c s, Q_X_nan = Q_X_new_nan c s,
      Q_Y_nan = Q_Y_new_nan c s, Q_Z_nan = Q_Z_new_nan c s, Q_nan = Q_cell_nan s,
      bound_flux_nan = bound_flux_new_nan c s\<rparr>"

subsection \<open>Reductions and the guard\<close>

text \<open>The cells of an array in row-major order, as the reductions visit them.\<close>

definition flat :: "config \<Rightarrow> (nat \<Rightarrow> nat \<Rightarrow> nat \<Rightarrow> 'a) \<Rightarrow> 'a list" where
  "flat c a =
     concat (map (\<lambda>y. concat (map (\<lambda>z. map (\<lambda>x. a y z x) [0..<N_X c]) [0..<N_Z c]))
       [0..<N_Y c])"

text \<open>The sum of the values of an array (of an array all of whose cells are numbers).\<close>

definition np_sum :: "config \<Rightarrow> array3 \<Rightarrow> real" where
  "np_sum c a = sum_list (flat c a)"

text \<open>
  \<^verbatim>\<open>np.amax\<close> raises on an array without elements. It is a not-a-number as soon as
  one cell of the array is, and the largest value otherwise.
\<close>

definition np_amax :: "config \<Rightarrow> array3 \<Rightarrow> mask3 \<Rightarrow> np_float option" where
  "np_amax c a a_nan =
     (case flat c a of
        [] \<Rightarrow> None
      | v # vs \<Rightarrow> Some (if True \<in> set (flat c a_nan) then NaN else Finite (fold max vs v)))"

text \<open>\<^verbatim>\<open>np.abs(m) > l\<close>: false for a not-a-number.\<close>

definition np_abs_greater :: "np_float \<Rightarrow> real \<Rightarrow> bool" where
  "np_abs_greater m l = (case m of Finite v \<Rightarrow> \<bar>v\<bar> > l | Infinite \<Rightarrow> True | NaN \<Rightarrow> False)"

text \<open>
  One pass through the loop body. With \<open>N_Z = 0\<close> the bottom layer \<^verbatim>\<open>N_Z - 1\<close> read
  for \<open>bound_flux\<close> does not exist. At the end the guard
  \<^verbatim>\<open>np.abs(np.amax(S)) > LIM_VALUE\<close> raises.
\<close>

definition step :: "config \<Rightarrow> state \<Rightarrow> error + state" where
  "step c s =
     (if N_Z c = 0 then Inl IndexError
      else let s' = advance c s in
        case np_amax c (S s') (S_nan s') of
          None \<Rightarrow> Inl ValueError
        | Some m \<Rightarrow> if np_abs_greater m LIM_VALUE then Inl SaturationOverLimit else Inr s')"

text \<open>A state none of whose arrays holds a not-a-number.\<close>

definition all_numbers :: "state \<Rightarrow> bool" where
  "all_numbers s \<longleftrightarrow>
     S_nan s = numbers3 \<and> P_nan s = numbers3 \<and> Q_X_nan s = numbers3 \<and> Q_Y_nan s = numbers3
     \<and> Q_Z_nan s = numbers3 \<and> Q_nan s = numbers3 \<and> bound_flux_nan s = numbers2"

primrec steps :: "config \<Rightarrow> nat \<Rightarrow> state \<Rightarrow> error + state" where
  "steps c 0 s = Inr s"
| "steps c (Suc n) s = (case step c s of Inl e \<Rightarrow> Inl e | Inr s' \<Rightarrow> steps c n s')"

subsection \<open>Uniform fields\<close>

text \<open>
  The flux through the bottom boundary that the loop body computes from a field whose
  saturation is \<open>S0\<close> and whose pressure is the initial one in every cell.
\<close>

definition bottom_flux_uniform :: "config \<Rightarrow> array2" where
  "bottom_flux_uniform c y x =
     MU_INVERSE * k_rnd c y (N_Z c - 1) x * rel_perm c (S0 c)
     * (RHO_G - ((0 - P_init c y (N_Z c - 1) x) / dL c))"

text \<open>
  A state whose saturation and pressure are the initial ones, whose faces carry no flux,
  whose bottom boundary flux lets no water in, and that holds no not-a-number.
\<close>

definition uniform_state :: "config \<Rightarrow> state \<Rightarrow> bool" where
  "uniform_state c s \<longleftrightarrow>
     S s = S0_ini c \<and> P s = P_init c \<and> Q_X s = zeros3 \<and> Q_Y s = zeros3 \<and> Q_Z s = zeros3
     \<and> all_numbers s \<and> (\<forall>y x. SM c * bound_flux s y x \<le> 0)"

subsection \<open>Mass balance report\<close>

definition top_flux_sum :: "config \<Rightarrow> state \<Rightarrow> real" where
  "top_flux_sum c s = sum_list (concat (map (\<lambda>y. map (\<lambda>x. Q_Z s y 0 x) [0..<N_X c]) [0..<N_Y c]))"







section \<open>The flux law as the specification words it\<close>

text \<open>
  Face conductance between two adjacent cells: \<open>(1 / viscosity) * sqrt k_i * sqrt k_j\<close>.
  Relative permeability of a cell: \<open>S^\<lambda> * (1 - (1 - S^(1/m))^m)\<^sup>2\<close>. Darcy flux through
  a face: conductance times \<open>sqrt perm_i * sqrt perm_j\<close> times
  \<open>gravityTerm - \<Delta>P / dL\<close>.
\<close>

definition conductance_spec :: "real \<Rightarrow> real \<Rightarrow> real \<Rightarrow> real" where
  "conductance_spec viscosity k_i k_j = (1 / viscosity) * sqrt k_i * sqrt k_j"

definition rel_perm_spec :: "real \<Rightarrow> real \<Rightarrow> real \<Rightarrow> real" where
  "rel_perm_spec lam m v = np_power v lam * (1 - np_power (1 - np_power v (1 / m)) m)\<^sup>2"

definition face_flux_spec :: "real \<Rightarrow> real \<Rightarrow> real \<Rightarrow> real \<Rightarrow> real \<Rightarrow> real \<Rightarrow> real" where
  "face_flux_spec conductance perm_i perm_j gravityTerm deltaP len =
     conductance * (sqrt perm_i * sqrt perm_j) * (gravityTerm - deltaP / len)"

section \<open>Example configurations\<close>

text \<open>
  A small grid with the constants of the source (block size 0.25 cm, initial saturation
  0.01, flux \<open>8e-5\<close> over the whole top face, residual saturation 1.05, start on the
  wetting branch, no randomisation). The retention curves are linear stand-ins for the
  curves of the external module, with the draining branch above the wetting branch on
  \<open>[0, 1]\<close>.
\<close>

definition example_wet :: "real \<Rightarrow> real" where
  "example_wet v = - 2000 * (1 - v) - 100"

definition example_drain :: "real \<Rightarrow> real" where
  "example_drain v = - 1000 * (1 - v) - 100"

definition example_config :: config where
  "example_config =
     \<lparr>dL = 1 / 400, S0 = 1 / 100, N_Y = 2, N_Z = 2, N_X = 2, Q0 = 8 / 100000,
      FLUX_FULL = True, FLUX_MIDDLE = False, SATURATION_RESIDUAL = 105 / 100,
      WHICH_BRANCH = ''wet'', M_Q = 5 / 6,
      retention_curve_wet = example_wet, retention_curve_drain = example_drain,
      RANDOMIZATION_INTRINSIC_PERMEABILITY = False, random_perm = zeros3\<rparr>"

text \<open>The same run with randomisation switched on and a noise field that is zero.\<close>

definition zero_noise_config :: config where
  "zero_noise_config =
     example_config\<lparr>RANDOMIZATION_INTRINSIC_PERMEABILITY := True, random_perm := zeros3\<rparr>"

text \<open>
  A state of the example grid in which the face below the cells of the top layer carries
  a downward flux: the top layer loses water and the layer below gains it.
\<close>

definition example_state :: state where
  "example_state =
     \<lparr>S = (\<lambda>y z x. 1 / 2), P = (\<lambda>y z x. - 1000), Q_X = zeros3, Q_Y = zeros3,
      Q_Z = (\<lambda>y z x. if z = 1 then 1 else 0), Q = zeros3, bound_flux = (\<lambda>y x. 0),
      S_nan = numbers3, P_nan = numbers3, Q_X_nan = numbers3, Q_Y_nan = numbers3,
      Q_Z_nan = numbers3, Q_nan = numbers3, bound_flux_nan = numbers2\<rparr>"

text \<open>The example state with every cell close to full saturation.\<close>

definition wet_state :: state where
  "wet_state = example_state\<lparr>S := (\<lambda>y z x. 99 / 100)\<rparr>"

text \<open>A column of two cells from whose top face water is extracted (negative flux).\<close>

definition extraction_config :: config where
  "extraction_config = example_config\<lparr>N_Y := 1, N_X := 1, Q0 := - 1\<rparr>"


text \<open>A column of two cells without inflow, at the initial saturation 0.01.\<close>

definition still_config :: config where
  "still_config = example_config\<lparr>N_Y := 1, N_X := 1, Q0 := 0\<rparr>"

text \<open>A single layer of two by two cells without inflow, at the initial saturation 0.01.\<close>

definition layer_config :: config where
  "layer_config = example_config\<lparr>N_Z := 1, Q0 := 0\<rparr>"

text \<open>
  The relative permeability of that column at its initial saturation, and the flux it
  lets gravity drive through the face between the two cells.
\<close>

definition still_p :: real where
  "still_p = rel_perm still_config (1 / 100)"

definition still_q :: real where
  "still_q = MU_INVERSE * KAPPA * still_p * RHO_G"








definition still_start :: state where
  "still_start = projr (init still_config)"


definition example_start :: state where
  "example_start = projr (init example_config)"

definition extraction_start :: state where
  "extraction_start = projr (init extraction_config)"


definition layer_start :: state where
  "layer_start = projr (init layer_config)"

section \<open>Basic facts\<close>

lemma Kps_nonneg: "0 \<le> Kps"
  by (simp add: Kps_def)

lemma LIM_VALUE_bounds: "0 < LIM_VALUE" "LIM_VALUE < 1"
  by (simp_all add: LIM_VALUE_def)

lemma SM_dL: "dL c = 1 / 400 \<Longrightarrow> SM c = 1 / 56"
  by (simp add: SM_def dt_def dx_PAR_def dtBase_def THETA_def power2_eq_square)

lemma SM_example: "SM example_config = 1 / 56"
  by (rule SM_dL) (simp add: example_config_def)

lemma multiply_cell_pos: "r \<noteq> 0 \<Longrightarrow> 0 < multiply_cell r"
  by (simp add: multiply_cell_def)

lemma multiply_cell_nonneg: "0 \<le> multiply_cell r"
  by (simp add: multiply_cell_def)

lemma powr_unit: "0 < x \<Longrightarrow> x < 1 \<Longrightarrow> 0 < a \<Longrightarrow> 0 < x powr a \<and> x powr a < (1::real)"
  using powr_less_mono2 [of a x 1] by simp

lemma np_power_base_nonneg: "0 \<le> x \<Longrightarrow> a \<noteq> 0 \<Longrightarrow> np_power x a = x powr a"
  by (simp add: np_power_def)

lemma LAMBDA_fractional: "LAMBDA \<noteq> 0" "LAMBDA \<noteq> of_int \<lfloor>LAMBDA\<rfloor>"
  by (simp_all add: LAMBDA_def)

lemma np_power_LAMBDA_nonneg: "0 \<le> np_power v LAMBDA"
  using LAMBDA_fractional by (simp add: np_power_def)

lemma rel_perm_nonneg: "0 \<le> rel_perm c v"
  by (simp add: rel_perm_def np_power_LAMBDA_nonneg)

lemma rel_perm_nan_unit:
  assumes "0 \<le> v" "v \<le> 1" "0 < M_Q c"
  shows "\<not> rel_perm_nan c v False"
proof -
  have "v powr (1 / M_Q c) \<le> 1"
    using assms by (intro powr_le1) simp_all
  then have "0 \<le> 1 - np_power v (M_Q_inverse c)"
    using assms by (simp add: np_power_base_nonneg M_Q_inverse_def)
  then show ?thesis
    using assms(1) by (simp add: rel_perm_nan_def np_power_nan_def)
qed

lemma rel_perm_unit:
  assumes v: "0 < v" "v < 1" and m: "0 < M_Q c"
  shows "0 < rel_perm c v \<and> rel_perm c v < 1"
proof -
  have l: "0 < v powr LAMBDA \<and> v powr LAMBDA < 1"
    using v by (intro powr_unit) (simp_all add: LAMBDA_def)
  have a: "0 < v powr (1 / M_Q c) \<and> v powr (1 / M_Q c) < 1"
    using v m by (intro powr_unit) simp_all
  then have b: "0 < (1 - v powr (1 / M_Q c)) powr M_Q c
      \<and> (1 - v powr (1 / M_Q c)) powr M_Q c < 1"
    using m by (intro powr_unit) simp_all
  define d where "d = 1 - (1 - v powr (1 / M_Q c)) powr M_Q c"
  have d: "0 < d" "d < 1"
    using b by (simp_all add: d_def)
  then have d2: "0 < d ^ 2" "d ^ 2 < 1"
    by (simp_all add: power_less_one_iff)
  have "np_power v (M_Q_inverse c) = v powr (1 / M_Q c)"
    using v m by (simp add: np_power_base_nonneg M_Q_inverse_def)
  moreover have "np_power (1 - v powr (1 / M_Q c)) (M_Q c) = (1 - v powr (1 / M_Q c)) powr M_Q c"
    using a m by (simp add: np_power_base_nonneg)
  moreover have "np_power v LAMBDA = v powr LAMBDA"
    using v LAMBDA_fractional(1) by (simp add: np_power_base_nonneg)
  ultimately have eq: "rel_perm c v = v powr LAMBDA * d ^ 2"
    by (simp add: rel_perm_def d_def)
  have "v powr LAMBDA * d ^ 2 < 1 * 1"
    using l d2 by (intro mult_strict_mono) simp_all
  with l d2 show ?thesis
    by (simp add: eq)
qed

section \<open>Reductions over the grid\<close>

lemma set_flat: "set (flat c a) = {a y z x | y z x. y < N_Y c \<and> z < N_Z c \<and> x < N_X c}"
proof (rule set_eqI, rule iffI)
  fix v assume "v \<in> set (flat c a)"
  then obtain y z x where "y < N_Y c" "z < N_Z c" "x < N_X c" "v = a y z x"
    unfolding flat_def by auto
  then show "v \<in> {a y z x | y z x. y < N_Y c \<and> z < N_Z c \<and> x < N_X c}"
    by blast
next
  fix v assume "v \<in> {a y z x | y z x. y < N_Y c \<and> z < N_Z c \<and> x < N_X c}"
  then obtain y z x where "y < N_Y c" "z < N_Z c" "x < N_X c" "v = a y z x"
    by blast
  then show "v \<in> set (flat c a)"
    unfolding flat_def
    by (simp add: image_iff) (intro bexI [of _ y] bexI [of _ z] bexI [of _ x], simp_all)
qed

lemma sum_list_concat_map:
  "sum_list (concat (map f xs)) = sum_list (map (\<lambda>x. sum_list (f x)) xs)"
  for f :: "'a \<Rightarrow> real list"
  by (induction xs) simp_all

lemma sum_list_upt: "sum_list (map f [0..<n]) = (\<Sum>i<n. f i)" for f :: "nat \<Rightarrow> real"
  by (simp add: interv_sum_list_conv_sum_set_nat atLeast0LessThan)

lemma np_sum_eq: "np_sum c a = (\<Sum>y<N_Y c. \<Sum>z<N_Z c. \<Sum>x<N_X c. a y z x)"
  unfolding np_sum_def flat_def
  by (simp add: sum_list_concat_map sum_list_upt)

lemma top_flux_sum_eq: "top_flux_sum c s = (\<Sum>y<N_Y c. \<Sum>x<N_X c. Q_Z s y 0 x)"
  unfolding top_flux_sum_def
  by (simp add: sum_list_concat_map sum_list_upt)

lemma np_amax_None: "np_amax c a m = None \<longleftrightarrow> (N_Y c = 0 \<or> N_Z c = 0 \<or> N_X c = 0)"
proof -
  have "flat c a = [] \<longleftrightarrow> set (flat c a) = {}"
    by simp
  also have "\<dots> \<longleftrightarrow> (N_Y c = 0 \<or> N_Z c = 0 \<or> N_X c = 0)"
    unfolding set_flat by auto
  finally show ?thesis
    by (cases "flat c a") (simp_all add: np_amax_def)
qed

lemma mask_flat: "True \<in> set (flat c m) \<longleftrightarrow> (\<exists>y<N_Y c. \<exists>z<N_Z c. \<exists>x<N_X c. m y z x)"
  unfolding set_flat by auto

lemma np_amax_eq:
  assumes "np_amax c a m \<noteq> None"
  shows "np_amax c a m
     = Some (if (\<exists>y<N_Y c. \<exists>z<N_Z c. \<exists>x<N_X c. m y z x) then NaN
             else Finite (Max (set (flat c a))))"
proof -
  from assms obtain v vs where f: "flat c a = v # vs"
    by (cases "flat c a") (simp_all add: np_amax_def)
  have "fold max vs v = Max (set (flat c a))"
    unfolding f by (rule Max.set_eq_fold [symmetric])
  then show ?thesis
    by (simp add: np_amax_def f mask_flat)
qed

lemma np_amax_NaN:
  assumes "y < N_Y c" "z < N_Z c" "x < N_X c" "m y z x"
  shows "np_amax c a m = Some NaN"
proof -
  have "np_amax c a m \<noteq> None"
    using assms(1-3) by (auto simp: np_amax_None)
  from np_amax_eq [OF this] assms show ?thesis
    by auto
qed

lemma np_amax_Finite:
  assumes "np_amax c a m = Some (Finite v)"
  shows "v = Max (set (flat c a))" and "\<not> (\<exists>y<N_Y c. \<exists>z<N_Z c. \<exists>x<N_X c. m y z x)"
proof -
  have "np_amax c a m \<noteq> None"
    using assms by simp
  from np_amax_eq [OF this] assms
  show "v = Max (set (flat c a))" and "\<not> (\<exists>y<N_Y c. \<exists>z<N_Z c. \<exists>x<N_X c. m y z x)"
    by (simp_all split: if_splits)
qed

lemma np_amax_numbers:
  assumes "np_amax c a m \<noteq> None" and "\<not> (\<exists>y<N_Y c. \<exists>z<N_Z c. \<exists>x<N_X c. m y z x)"
  shows "np_amax c a m = Some (Finite (Max (set (flat c a))))"
  using np_amax_eq [OF assms(1)] assms(2) by simp

lemma Max_flat_ge:
  assumes "y < N_Y c" "z < N_Z c" "x < N_X c"
  shows "a y z x \<le> Max (set (flat c a))"
proof -
  have "a y z x \<in> set (flat c a)"
    unfolding set_flat using assms by blast
  then show ?thesis
    by (intro Max_ge) simp_all
qed

lemma Max_flat_le:
  assumes "0 < N_Y c" "0 < N_Z c" "0 < N_X c"
    and "\<And>y z x. y < N_Y c \<Longrightarrow> z < N_Z c \<Longrightarrow> x < N_X c \<Longrightarrow> a y z x \<le> (l::real)"
  shows "Max (set (flat c a)) \<le> l"
proof -
  have ne: "set (flat c a) \<noteq> {}"
    unfolding set_flat using assms(1-3) by blast
  have "\<forall>v\<in>set (flat c a). v \<le> l"
    using assms(4) by (auto simp: set_flat)
  with ne show ?thesis
    by (simp add: Max_le_iff)
qed

section \<open>Steps, initial state and the example runs\<close>

lemma step_Inr: "step c s = Inr s' \<Longrightarrow> s' = advance c s \<and> 0 < N_Z c"
  by (auto simp: step_def Let_def split: if_splits option.splits)

lemma step_eq:
  assumes "0 < N_Y c" "0 < N_Z c" "0 < N_X c"
  shows "step c s =
     (if (\<exists>y<N_Y c. \<exists>z<N_Z c. \<exists>x<N_X c. S_nan (advance c s) y z x) then Inr (advance c s)
      else if LIM_VALUE < \<bar>Max (set (flat c (S (advance c s))))\<bar> then Inl SaturationOverLimit
      else Inr (advance c s))"
proof -
  have "np_amax c (S (advance c s)) (S_nan (advance c s)) \<noteq> None"
    using assms by (simp add: np_amax_None)
  from np_amax_eq [OF this] assms(2) show ?thesis
    by (simp add: step_def Let_def np_abs_greater_def)
qed

lemma step_list:
  assumes "all_numbers s" and "0 < N_Z c" and "flat c (S (advance c s)) = v # vs"
    and "\<bar>fold max vs v\<bar> \<le> LIM_VALUE"
  shows "step c s = Inr (advance c s)"
proof -
  have "S_nan (advance c s) = numbers3"
    using assms(1)
    by (simp add: fun_eq_iff advance_def all_numbers_def S_new_nan_def S_flux_nan_def
        bound_lim_nan_def Q_cell_nan_def numbers3_def numbers2_def)
  then have "np_amax c (S (advance c s)) (S_nan (advance c s)) = Some (Finite (fold max vs v))"
    by (simp add: np_amax_def assms(3) mask_flat numbers3_def)
  then show ?thesis
    using assms(2,4) by (simp add: step_def Let_def np_abs_greater_def)
qed

lemma steps_pos_N_Z: "steps c n s = Inr s' \<Longrightarrow> 0 < n \<Longrightarrow> 0 < N_Z c"
  by (cases n) (auto split: sum.splits dest: step_Inr)

lemma init_fields:
  assumes "init c = Inr s0"
  shows "S s0 = S0_ini c" "P s0 = P_init c" "Q_X s0 = zeros3" "Q_Y s0 = zeros3"
    "Q s0 = zeros3" "bound_flux s0 = (\<lambda>y x. 0)" "Q_Z_init c = Inr (Q_Z s0)"
    "all_numbers s0"
  using assms by (auto simp: init_def all_numbers_def split: if_splits sum.splits)

subsection \<open>States without a not-a-number\<close>

lemma advance_S_numbers:
  assumes "all_numbers s"
  shows "S_new_nan c s = numbers3" "S_nan (advance c s) = numbers3"
  using assms
  by (simp_all add: fun_eq_iff advance_def all_numbers_def S_new_nan_def S_flux_nan_def
      bound_lim_nan_def Q_cell_nan_def numbers3_def numbers2_def)

lemma advance_P_numbers:
  assumes "all_numbers s"
  shows "P_new_nan c s = numbers3" "P_nan (advance c s) = numbers3"
  using assms advance_S_numbers(1) [OF assms, of c]
  by (simp_all add: fun_eq_iff advance_def all_numbers_def P_new_nan_def P_relaxed_nan_def
      numbers3_def)

lemma perm_nonneg: "0 \<le> perm c s y z x"
  by (simp add: perm_def rel_perm_nonneg)

lemma perm_sqrt_nan_iff: "perm_sqrt_nan c s y z x \<longleftrightarrow> perm_nan c s y z x"
  using perm_nonneg [of c s y z x] by (simp add: perm_sqrt_nan_def)

lemma advance_all_numbers:
  assumes n: "all_numbers s" and nz: "0 < N_Z c"
    and p: "\<And>y z x. y < N_Y c \<Longrightarrow> z < N_Z c \<Longrightarrow> x < N_X c
        \<Longrightarrow> \<not> rel_perm_nan c (S_new c s y z x) False"
  shows "all_numbers (advance c s)"
proof -
  have pn: "\<not> perm_nan c s y z x" if "y < N_Y c" "z < N_Z c" "x < N_X c" for y z x
    using p [OF that] by (simp add: perm_nan_def advance_S_numbers(1) [OF n] numbers3_def)
  have P: "\<not> P_new_nan c s y z x" for y z x
    by (simp add: advance_P_numbers(1) [OF n] numbers3_def)
  have old: "Q_X_nan s = numbers3" "Q_Y_nan s = numbers3" "Q_Z_nan s = numbers3"
    "bound_flux_nan s = numbers2"
    using n by (simp_all add: all_numbers_def)
  have "Q_X_new_nan c s = numbers3"
    by (auto simp: fun_eq_iff Q_X_new_nan_def perm_sqrt_nan_iff pn P old numbers3_def)
  moreover have "Q_Y_new_nan c s = numbers3"
    by (auto simp: fun_eq_iff Q_Y_new_nan_def perm_sqrt_nan_iff pn P old numbers3_def)
  moreover have "Q_Z_new_nan c s = numbers3"
    by (auto simp: fun_eq_iff Q_Z_new_nan_def perm_sqrt_nan_iff pn P old numbers3_def)
  moreover have "bound_flux_new_nan c s = numbers2"
    using nz by (auto simp: fun_eq_iff bound_flux_new_nan_def pn P old numbers2_def)
  moreover have "Q_cell_nan s = numbers3"
    using old by (simp add: fun_eq_iff Q_cell_nan_def numbers3_def)
  ultimately show ?thesis
    using advance_S_numbers(2) [OF n, of c] advance_P_numbers(2) [OF n, of c]
    by (simp add: all_numbers_def advance_def)
qed

subsection \<open>Values of one step\<close>

lemma Q_Z_init_below: "Q_Z_init c = Inr qz \<Longrightarrow> 0 < z \<Longrightarrow> qz y z x = 0"
  by (auto simp: Q_Z_init_def zeros3_def split: if_splits)

lemma advance_S_inner:
  "Suc z \<noteq> N_Z c \<Longrightarrow> S (advance c s) y z x = S s y z x + SM c * Q_cell s y z x"
  by (simp add: advance_def S_new_def S_flux_def)

lemma advance_S_bottom:
  assumes "Suc z = N_Z c"
  shows "S (advance c s) y z x
       = max (S s y z x + SM c * Q_cell s y z x + SM c * bound_flux s y x)
           (min (S s y z x + SM c * Q_cell s y z x) (SATURATION_RESIDUAL c))"
proof -
  have "N_Z c - 1 = z"
    using assms by arith
  then show ?thesis
    using assms by (simp add: advance_def S_new_def S_flux_def bound_lim_def)
qed

lemma steps_fixpoint: "advance c s = s \<Longrightarrow> steps c n s = Inr s' \<Longrightarrow> s' = s"
proof (induction n)
  case 0
  then show ?case
    by simp
next
  case (Suc n)
  from Suc.prems(2) obtain s1 where s1: "step c s = Inr s1" and rest: "steps c n s1 = Inr s'"
    by (auto split: sum.splits)
  have "s1 = s"
    using step_Inr [OF s1] Suc.prems(1) by simp
  with Suc.IH [OF Suc.prems(1)] rest show ?case
    by simp
qed


lemma KAPPA_pos: "0 < KAPPA"
  by (simp add: KAPPA_def)

lemma k_rnd_plain: "\<not> RANDOMIZATION_INTRINSIC_PERMEABILITY c \<Longrightarrow> k_rnd c y z x = KAPPA"
  by (simp add: k_rnd_def multiply_def)

lemma k_rnd_q2_plain:
  "\<not> RANDOMIZATION_INTRINSIC_PERMEABILITY c \<Longrightarrow> k_rnd_q2 c y z x = MU_INVERSE * KAPPA"
  using KAPPA_pos by (simp add: k_rnd_q2_def k_rnd_sqrt_def k_rnd_plain)

lemma perm_sqrt_square:
  assumes "perm c s y z x = p" "perm c s y' z' x' = p"
  shows "perm_sqrt c s y z x * perm_sqrt c s y' z' x' = p"
  using assms perm_nonneg [of c s y z x] by (simp add: perm_sqrt_def)

subsection \<open>The first step of a run without inflow\<close>

lemma Q_Z_init_zero: "Q0 c = 0 \<Longrightarrow> Q_Z_init c = Inr qz \<Longrightarrow> qz = zeros3"
  by (auto simp: Q_Z_init_def zeros3_def fun_eq_iff split: if_splits)

lemma init_zero_flux:
  assumes "Q0 c = 0" "init c = Inr s0"
  shows "s0 = \<lparr>S = S0_ini c, P = P_init c, Q_X = zeros3, Q_Y = zeros3, Q_Z = zeros3,
      Q = zeros3, bound_flux = (\<lambda>y x. 0),
      S_nan = numbers3, P_nan = numbers3, Q_X_nan = numbers3, Q_Y_nan = numbers3,
      Q_Z_nan = numbers3, Q_nan = numbers3, bound_flux_nan = numbers2\<rparr>"
  using init_fields [OF assms(2)] Q_Z_init_zero [OF assms(1), of "Q_Z s0"]
  by (cases s0) (simp add: all_numbers_def)

lemma zero_flux_S_new:
  assumes "Q0 c = 0" "init c = Inr s0"
  shows "S_new c s0 = S0_ini c"
  unfolding init_zero_flux [OF assms]
  by (simp add: fun_eq_iff S_new_def S_flux_def bound_lim_def Q_cell_def zeros3_def S0_ini_def)

lemma zero_flux_P_new:
  assumes "Q0 c = 0" "init c = Inr s0"
  shows "P_new c s0 = P_init c"
  unfolding fun_eq_iff P_new_def P_relaxed_def wet_def drain_def Let_def
    zero_flux_S_new [OF assms]
  by (simp add: init_fields [OF assms(2)])

lemma zero_flux_first_advance:
  assumes "Q0 c = 0" "init c = Inr s0"
  shows "S (advance c s0) = S s0" "P (advance c s0) = P s0"
  by (simp_all add: advance_def zero_flux_S_new [OF assms] zero_flux_P_new [OF assms]
      init_fields [OF assms(2)])

lemma zero_flux_perm:
  assumes "Q0 c = 0" "init c = Inr s0"
  shows "perm c s0 y z x = rel_perm c (S0 c)"
  by (simp add: perm_def zero_flux_S_new [OF assms] S0_ini_def)


subsection \<open>The example runs\<close>

lemmas example_defs =
  example_config_def example_state_def example_wet_def example_drain_def zeros3_def

lemmas S_new_defs = advance_def S_new_def S_flux_def Q_cell_def bound_lim_def

lemma example_config_fields:
  "N_Y example_config = 2" "N_Z example_config = 2" "N_X example_config = 2"
  "SATURATION_RESIDUAL example_config = 105 / 100" "SM example_config = 1 / 56"
  "Q0 example_config = 8 / 100000" "S0 example_config = 1 / 100"
  using SM_dL [of example_config] by (simp_all add: example_config_def)

lemma flat_222:
  "N_Y c = 2 \<Longrightarrow> N_Z c = 2 \<Longrightarrow> N_X c = 2 \<Longrightarrow>
   flat c a = [a 0 0 0, a 0 0 1, a 0 1 0, a 0 1 1, a 1 0 0, a 1 0 1, a 1 1 0, a 1 1 1]"
  by (simp add: flat_def upt_rec)


lemma flat_121: "N_Y c = 1 \<Longrightarrow> N_Z c = 2 \<Longrightarrow> N_X c = 1 \<Longrightarrow> flat c a = [a 0 0 0, a 0 1 0]"
  by (simp add: flat_def upt_rec)

lemma flat_example:
  "flat example_config a
     = [a 0 0 0, a 0 0 1, a 0 1 0, a 0 1 1, a 1 0 0, a 1 0 1, a 1 1 0, a 1 1 1]"
  by (rule flat_222) (simp_all add: example_config_fields)

lemma example_S_top: "S (advance example_config example_state) y 0 x = 1 / 2 - 1 / 56"
  by (simp add: S_new_defs SM_example) (simp add: example_defs)

lemma example_S_bottom: "S (advance example_config example_state) y (Suc 0) x = 1 / 2 + 1 / 56"
  by (simp add: S_new_defs SM_example) (simp add: example_defs)

lemma example_state_numbers: "all_numbers example_state" "all_numbers wet_state"
  by (simp_all add: all_numbers_def wet_state_def example_state_def)

lemma example_step_ok:
  "step example_config example_state = Inr (advance example_config example_state)"
  by (rule step_list [OF example_state_numbers(1) _ flat_example])
    (simp_all add: example_config_fields example_S_top example_S_bottom LIM_VALUE_def)

lemma wet_state_bottom: "S (advance example_config wet_state) 0 1 0 = 99 / 100 + 1 / 56"
  by (simp add: S_new_defs SM_example) (simp add: wet_state_def example_defs)

lemma init_example: "init example_config = Inr example_start"
  by (simp add: example_start_def init_def Q_Z_init_def example_config_def)

lemma example_start_fields:
  "S example_start = (\<lambda>y z x. 1 / 100)"
  "Q_X example_start = (\<lambda>y z x. 0)"
  "Q_Y example_start = (\<lambda>y z x. 0)"
  "Q_Z example_start = (\<lambda>y z x. if z = 0 \<and> y < 2 \<and> x < 2 then 8 / 100000 else 0)"
  "bound_flux example_start = (\<lambda>y x. 0)"
  by (simp_all add: example_start_def init_def Q_Z_init_def example_config_def
      S0_ini_def zeros3_def cong: if_cong)

lemma example_start_S_top:
  "y < 2 \<Longrightarrow> x < 2 \<Longrightarrow>
     S (advance example_config example_start) y 0 x = 1 / 100 + 1 / 700000"
  by (simp add: S_new_defs example_config_fields example_start_fields)

lemma example_start_S_bottom:
  "S (advance example_config example_start) y (Suc 0) x = 1 / 100"
  by (simp add: S_new_defs example_config_fields example_start_fields)

lemma example_start_step:
  "step example_config example_start = Inr (advance example_config example_start)"
  by (rule step_list [OF init_fields(8) [OF init_example] _ flat_example])
    (simp_all add: example_config_fields example_start_S_top example_start_S_bottom
      LIM_VALUE_def)

lemma extraction_config_fields:
  "N_Y extraction_config = 1" "N_Z extraction_config = 2" "N_X extraction_config = 1"
  "SATURATION_RESIDUAL extraction_config = 105 / 100" "SM extraction_config = 1 / 56"
  using SM_dL [of extraction_config]
  by (simp_all add: extraction_config_def example_config_def)

lemma init_extraction: "init extraction_config = Inr extraction_start"
  by (simp add: extraction_start_def init_def Q_Z_init_def extraction_config_def
      example_config_def)

lemma extraction_start_fields:
  "S extraction_start = (\<lambda>y z x. 1 / 100)"
  "Q_X extraction_start = (\<lambda>y z x. 0)"
  "Q_Y extraction_start = (\<lambda>y z x. 0)"
  "Q_Z extraction_start = (\<lambda>y z x. if z = 0 \<and> y < 1 \<and> x < 1 then - 1 else 0)"
  "bound_flux extraction_start = (\<lambda>y x. 0)"
  by (simp_all add: extraction_start_def init_def Q_Z_init_def extraction_config_def
      example_config_def S0_ini_def zeros3_def cong: if_cong)

lemma flat_extraction: "flat extraction_config a = [a 0 0 0, a 0 1 0]"
  by (rule flat_121) (simp_all add: extraction_config_fields)

lemma extraction_S_top:
  "S (advance extraction_config extraction_start) 0 0 0 = 1 / 100 - 1 / 56"
  by (simp add: S_new_defs extraction_config_fields extraction_start_fields)

lemma extraction_S_bottom:
  "S (advance extraction_config extraction_start) 0 (Suc 0) 0 = 1 / 100"
  by (simp add: S_new_defs extraction_config_fields extraction_start_fields)

section \<open>Permeability multiplier\<close>

text \<open>
  C8. The multiplier is \<open>1 + r\<close> for positive noise and \<open>1 / (1 - r)\<close> for negative
  noise, both positive. For noise exactly zero the source leaves the cell at the zero of
  \<^verbatim>\<open>np.zeros_like\<close>: the multiplier, and with it the intrinsic permeability of the
  cell, is 0 and not 1.
\<close>

theorem multiply_zero_noise:
  "random_perm zero_noise_config 0 0 0 = 0
   \<and> multiply zero_noise_config 0 0 0 = 0
   \<and> k_rnd zero_noise_config 0 0 0 = 0"
  by (simp add: zero_noise_config_def example_config_def zeros3_def multiply_def
      multiply_cell_def k_rnd_def)

section \<open>Pressure update\<close>

text \<open>
  C3. In a cell whose saturation increases in the step the new pressure is the minimum of
  the relaxed pressure \<open>P + Kps * (S_new - S)\<close> and the wetting branch at the old
  saturation, so it is bounded by both; in a cell whose saturation decreases the new
  pressure is at least the draining branch at the old saturation.
\<close>

theorem pressure_update_hysteresis:
  "(S s y z x < S (advance c s) y z x \<longrightarrow>
      P (advance c s) y z x =
        min (P s y z x + Kps * (S (advance c s) y z x - S s y z x))
          (retention_curve_wet c (S s y z x))
      \<and> P (advance c s) y z x \<le> P s y z x + Kps * (S (advance c s) y z x - S s y z x)
      \<and> P (advance c s) y z x \<le> retention_curve_wet c (S s y z x))
   \<and> (S (advance c s) y z x < S s y z x \<longrightarrow>
      retention_curve_drain c (S s y z x) \<le> P (advance c s) y z x)"
  by (simp add: advance_def P_new_def P_relaxed_def P_wet_def P_drain_def wet_def drain_def
      Let_def)

theorem pressure_update_hysteresis_witness:
  "S example_state 0 1 0 < S (advance example_config example_state) 0 1 0
   \<and> P (advance example_config example_state) 0 1 0
       = min (P example_state 0 1 0
              + Kps * (S (advance example_config example_state) 0 1 0 - S example_state 0 1 0))
           (retention_curve_wet example_config (S example_state 0 1 0))
   \<and> S (advance example_config example_state) 0 0 0 < S example_state 0 0 0
   \<and> retention_curve_drain example_config (S example_state 0 0 0)
       \<le> P (advance example_config example_state) 0 0 0"
proof -
  have "S example_state 0 1 0 = 1 / 2" "S example_state 0 0 0 = 1 / 2"
    by (simp_all add: example_state_def)
  then have w: "S example_state 0 1 0 < S (advance example_config example_state) 0 1 0"
    and d: "S (advance example_config example_state) 0 0 0 < S example_state 0 0 0"
    by (simp_all add: example_S_bottom example_S_top)
  show ?thesis
    using w d
      pressure_update_hysteresis
        [where c = example_config and s = example_state and y = 0 and z = 1 and x = 0]
      pressure_update_hysteresis
        [where c = example_config and s = example_state and y = 0 and z = 0 and x = 0]
    by blast
qed

text \<open>
  C4. When the draining branch lies on or above the wetting branch at the old saturation
  of a cell, the pressure of the cell after the update lies between
  \<open>min (P_wet, previous P)\<close> and \<open>max (P_drain, previous P)\<close>.
\<close>

theorem pressure_in_envelope:
  assumes "retention_curve_wet c (S s y z x) \<le> retention_curve_drain c (S s y z x)"
  shows "min (retention_curve_wet c (S s y z x)) (P s y z x) \<le> P (advance c s) y z x
       \<and> P (advance c s) y z x \<le> max (retention_curve_drain c (S s y z x)) (P s y z x)"
proof -
  consider (w) "S s y z x < S_new c s y z x" | (d) "S_new c s y z x < S s y z x"
    | (e) "S_new c s y z x = S s y z x"
    by linarith
  then show ?thesis
  proof cases
    case w
    then have "0 \<le> Kps * (S_new c s y z x - S s y z x)"
      using Kps_nonneg by simp
    with w assms show ?thesis
      by (simp add: advance_def P_new_def P_relaxed_def P_wet_def P_drain_def wet_def
          drain_def Let_def min_def max_def)
  next
    case d
    then have "Kps * (S_new c s y z x - S s y z x) \<le> 0"
      using Kps_nonneg by (simp add: mult_nonneg_nonpos)
    with d assms show ?thesis
      by (simp add: advance_def P_new_def P_relaxed_def P_wet_def P_drain_def wet_def
          drain_def Let_def min_def max_def)
  next
    case e
    then show ?thesis
      by (simp add: advance_def P_new_def P_relaxed_def P_wet_def P_drain_def wet_def
          drain_def Let_def min_def max_def)
  qed
qed

theorem pressure_in_envelope_witness:
  "retention_curve_wet example_config (S example_state 0 1 0)
     \<le> retention_curve_drain example_config (S example_state 0 1 0)
   \<and> min (retention_curve_wet example_config (S example_state 0 1 0)) (P example_state 0 1 0)
     \<le> P (advance example_config example_state) 0 1 0
   \<and> P (advance example_config example_state) 0 1 0
     \<le> max (retention_curve_drain example_config (S example_state 0 1 0))
         (P example_state 0 1 0)"
proof -
  have h: "retention_curve_wet example_config (S example_state 0 1 0)
     \<le> retention_curve_drain example_config (S example_state 0 1 0)"
    by (simp add: example_defs)
  show ?thesis
    using h pressure_in_envelope [OF h] by simp
qed

section \<open>Flux update\<close>

lemma rel_perm_is_spec: "rel_perm c v = rel_perm_spec LAMBDA (M_Q c) v"
  by (simp add: rel_perm_def rel_perm_spec_def M_Q_inverse_def)

text \<open>
  C1. After the loop body, the flux on every interior face of each axis is the Darcy flux
  of the specification: the conductance of the two adjacent intrinsic permeabilities,
  times the square roots of the relative permeabilities of the two cells at the
  just-updated saturation, times the gravity term (\<open>RHO * G\<close> along \<open>z\<close>, 0 along \<open>x\<close>
  and \<open>y\<close>) minus the difference of the updated pressures, taken towards the larger
  index, over \<open>dL\<close>.
\<close>

theorem darcy_flux_interior:
  "(y < N_Y c \<and> z < N_Z c \<and> 1 \<le> x \<and> x < N_X c \<longrightarrow>
      Q_X (advance c s) y z x =
        face_flux_spec (conductance_spec MU (k_rnd c y z (x - 1)) (k_rnd c y z x))
          (rel_perm_spec LAMBDA (M_Q c) (S (advance c s) y z (x - 1)))
          (rel_perm_spec LAMBDA (M_Q c) (S (advance c s) y z x))
          0 (P (advance c s) y z x - P (advance c s) y z (x - 1)) (dL c))
   \<and> (1 \<le> y \<and> y < N_Y c \<and> z < N_Z c \<and> x < N_X c \<longrightarrow>
      Q_Y (advance c s) y z x =
        face_flux_spec (conductance_spec MU (k_rnd c (y - 1) z x) (k_rnd c y z x))
          (rel_perm_spec LAMBDA (M_Q c) (S (advance c s) (y - 1) z x))
          (rel_perm_spec LAMBDA (M_Q c) (S (advance c s) y z x))
          0 (P (advance c s) y z x - P (advance c s) (y - 1) z x) (dL c))
   \<and> (y < N_Y c \<and> 1 \<le> z \<and> z < N_Z c \<and> x < N_X c \<longrightarrow>
      Q_Z (advance c s) y z x =
        face_flux_spec (conductance_spec MU (k_rnd c y (z - 1) x) (k_rnd c y z x))
          (rel_perm_spec LAMBDA (M_Q c) (S (advance c s) y (z - 1) x))
          (rel_perm_spec LAMBDA (M_Q c) (S (advance c s) y z x))
          (RHO * G) (P (advance c s) y z x - P (advance c s) y (z - 1) x) (dL c))"
proof (intro conjI impI)
  assume "y < N_Y c \<and> z < N_Z c \<and> 1 \<le> x \<and> x < N_X c"
  then show "Q_X (advance c s) y z x =
        face_flux_spec (conductance_spec MU (k_rnd c y z (x - 1)) (k_rnd c y z x))
          (rel_perm_spec LAMBDA (M_Q c) (S (advance c s) y z (x - 1)))
          (rel_perm_spec LAMBDA (M_Q c) (S (advance c s) y z x))
          0 (P (advance c s) y z x - P (advance c s) y z (x - 1)) (dL c)"
    by (simp add: advance_def Q_X_new_def face_flux_spec_def conductance_spec_def
        k_rnd_q1_def k_rnd_sqrt_def MU_INVERSE_def perm_sqrt_def perm_def rel_perm_is_spec)
next
  assume "1 \<le> y \<and> y < N_Y c \<and> z < N_Z c \<and> x < N_X c"
  then show "Q_Y (advance c s) y z x =
        face_flux_spec (conductance_spec MU (k_rnd c (y - 1) z x) (k_rnd c y z x))
          (rel_perm_spec LAMBDA (M_Q c) (S (advance c s) (y - 1) z x))
          (rel_perm_spec LAMBDA (M_Q c) (S (advance c s) y z x))
          0 (P (advance c s) y z x - P (advance c s) (y - 1) z x) (dL c)"
    by (simp add: advance_def Q_Y_new_def face_flux_spec_def conductance_spec_def
        k_rnd_q3_def k_rnd_sqrt_def MU_INVERSE_def perm_sqrt_def perm_def rel_perm_is_spec)
next
  assume "y < N_Y c \<and> 1 \<le> z \<and> z < N_Z c \<and> x < N_X c"
  then show "Q_Z (advance c s) y z x =
        face_flux_spec (conductance_spec MU (k_rnd c y (z - 1) x) (k_rnd c y z x))
          (rel_perm_spec LAMBDA (M_Q c) (S (advance c s) y (z - 1) x))
          (rel_perm_spec LAMBDA (M_Q c) (S (advance c s) y z x))
          (RHO * G) (P (advance c s) y z x - P (advance c s) y (z - 1) x) (dL c)"
    by (simp add: advance_def Q_Z_new_def face_flux_spec_def conductance_spec_def
        k_rnd_q2_def k_rnd_sqrt_def MU_INVERSE_def perm_sqrt_def perm_def rel_perm_is_spec
        RHO_G_def)
qed

theorem darcy_flux_interior_witness:
  "(1 < N_Y example_config \<and> 1 < N_Z example_config \<and> (1::nat) \<le> 1 \<and> 1 < N_X example_config)
   \<and> Q_X (advance example_config example_state) 1 1 1 =
        face_flux_spec
          (conductance_spec MU (k_rnd example_config 1 1 (1 - 1)) (k_rnd example_config 1 1 1))
          (rel_perm_spec LAMBDA (M_Q example_config)
            (S (advance example_config example_state) 1 1 (1 - 1)))
          (rel_perm_spec LAMBDA (M_Q example_config)
            (S (advance example_config example_state) 1 1 1))
          0 (P (advance example_config example_state) 1 1 1
             - P (advance example_config example_state) 1 1 (1 - 1)) (dL example_config)
   \<and> Q_Y (advance example_config example_state) 1 1 1 =
        face_flux_spec
          (conductance_spec MU (k_rnd example_config (1 - 1) 1 1) (k_rnd example_config 1 1 1))
          (rel_perm_spec LAMBDA (M_Q example_config)
            (S (advance example_config example_state) (1 - 1) 1 1))
          (rel_perm_spec LAMBDA (M_Q example_config)
            (S (advance example_config example_state) 1 1 1))
          0 (P (advance example_config example_state) 1 1 1
             - P (advance example_config example_state) (1 - 1) 1 1) (dL example_config)
   \<and> Q_Z (advance example_config example_state) 1 1 1 =
        face_flux_spec
          (conductance_spec MU (k_rnd example_config 1 (1 - 1) 1) (k_rnd example_config 1 1 1))
          (rel_perm_spec LAMBDA (M_Q example_config)
            (S (advance example_config example_state) 1 (1 - 1) 1))
          (rel_perm_spec LAMBDA (M_Q example_config)
            (S (advance example_config example_state) 1 1 1))
          (RHO * G) (P (advance example_config example_state) 1 1 1
             - P (advance example_config example_state) 1 (1 - 1) 1) (dL example_config)"
proof -
  have dims: "N_Y example_config = 2" "N_Z example_config = 2" "N_X example_config = 2"
    by (simp_all add: example_config_def)
  show ?thesis
    using darcy_flux_interior
      [where c = example_config and s = example_state and y = 1 and z = 1 and x = 1]
    unfolding dims by simp
qed

section \<open>The guard on the saturation\<close>

lemma extraction_step1:
  "step extraction_config extraction_start
     = Inr (advance extraction_config extraction_start)"
  by (rule step_list [OF init_fields(8) [OF init_extraction] _ flat_extraction])
    (simp_all add: extraction_config_fields extraction_S_top extraction_S_bottom
      LIM_VALUE_def)

lemma extraction_perm_nan: "perm_nan extraction_config extraction_start 0 0 0"
proof -
  have "S_new extraction_config extraction_start 0 0 0 < 0"
    using extraction_S_top by (simp add: advance_def)
  then show ?thesis
    using LAMBDA_fractional by (simp add: perm_nan_def rel_perm_nan_def np_power_nan_def)
qed

lemma extraction_S_nan2:
  "S_nan (advance extraction_config (advance extraction_config extraction_start)) 0 0 0"
proof -
  have "Q_Z_nan (advance extraction_config extraction_start) 0 (Suc 0) 0"
    using extraction_perm_nan
    by (simp add: advance_def Q_Z_new_nan_def perm_sqrt_nan_iff extraction_config_fields)
  then show ?thesis
    by (simp add: advance_def S_new_nan_def S_flux_nan_def Q_cell_nan_def
        extraction_config_fields)
qed

text \<open>
  C5, as the code has it. The guard compares the absolute value of the largest cell with
  \<open>LIM_VALUE\<close>. When the saturation field at the end of a step holds no not-a-number
  and some cell is above \<open>LIM_VALUE\<close>, the loop raises; a step that returns hands on the
  state of the loop body unchanged. There is no test of the lower bound: a negative cell
  goes unnoticed as long as no cell is above \<open>LIM_VALUE\<close> and some cell is at least
  \<open>- LIM_VALUE\<close>. A field that holds a not-a-number never raises.
\<close>

theorem guard_raises_over_limit:
  "(y < N_Y c \<and> z < N_Z c \<and> x < N_X c \<and> LIM_VALUE < S (advance c s) y z x
      \<and> \<not> (\<exists>y'<N_Y c. \<exists>z'<N_Z c. \<exists>x'<N_X c. S_nan (advance c s) y' z' x')
      \<longrightarrow> step c s = Inl SaturationOverLimit)
   \<and> (step c s = Inr s' \<longrightarrow> s' = advance c s)
   \<and> (y < N_Y c \<and> z < N_Z c \<and> x < N_X c \<and> S (advance c s) y z x < 0
      \<and> (\<forall>y'<N_Y c. \<forall>z'<N_Z c. \<forall>x'<N_X c. S (advance c s) y' z' x' \<le> LIM_VALUE)
      \<and> yb < N_Y c \<and> zb < N_Z c \<and> xb < N_X c \<and> - LIM_VALUE \<le> S (advance c s) yb zb xb
      \<longrightarrow> step c s = Inr (advance c s))
   \<and> (y < N_Y c \<and> z < N_Z c \<and> x < N_X c \<and> S_nan (advance c s) y z x
      \<longrightarrow> step c s = Inr (advance c s))"
proof (intro conjI impI)
  assume h: "y < N_Y c \<and> z < N_Z c \<and> x < N_X c \<and> LIM_VALUE < S (advance c s) y z x
      \<and> \<not> (\<exists>y'<N_Y c. \<exists>z'<N_Z c. \<exists>x'<N_X c. S_nan (advance c s) y' z' x')"
  then have d: "0 < N_Y c" "0 < N_Z c" "0 < N_X c"
    by auto
  have "S (advance c s) y z x \<le> Max (set (flat c (S (advance c s))))"
    using h by (intro Max_flat_ge) simp_all
  with h have "LIM_VALUE < \<bar>Max (set (flat c (S (advance c s))))\<bar>"
    by linarith
  with h show "step c s = Inl SaturationOverLimit"
    unfolding step_eq [OF d] by simp
next
  assume "step c s = Inr s'"
  then show "s' = advance c s"
    by (simp add: step_Inr)
next
  assume h: "y < N_Y c \<and> z < N_Z c \<and> x < N_X c \<and> S (advance c s) y z x < 0
      \<and> (\<forall>y'<N_Y c. \<forall>z'<N_Z c. \<forall>x'<N_X c. S (advance c s) y' z' x' \<le> LIM_VALUE)
      \<and> yb < N_Y c \<and> zb < N_Z c \<and> xb < N_X c \<and> - LIM_VALUE \<le> S (advance c s) yb zb xb"
  then have d: "0 < N_Y c" "0 < N_Z c" "0 < N_X c"
    by auto
  have "Max (set (flat c (S (advance c s)))) \<le> LIM_VALUE"
    using d h by (intro Max_flat_le) simp_all
  moreover have "S (advance c s) yb zb xb \<le> Max (set (flat c (S (advance c s))))"
    using h by (intro Max_flat_ge) simp_all
  ultimately have "\<not> LIM_VALUE < \<bar>Max (set (flat c (S (advance c s))))\<bar>"
    using h by linarith
  then show "step c s = Inr (advance c s)"
    unfolding step_eq [OF d] by simp
next
  assume h: "y < N_Y c \<and> z < N_Z c \<and> x < N_X c \<and> S_nan (advance c s) y z x"
  then have d: "0 < N_Y c" "0 < N_Z c" "0 < N_X c"
    by auto
  from h have "\<exists>y<N_Y c. \<exists>z<N_Z c. \<exists>x<N_X c. S_nan (advance c s) y z x"
    by blast
  then show "step c s = Inr (advance c s)"
    unfolding step_eq [OF d] by simp
qed

theorem guard_raises_over_limit_witness:
  "LIM_VALUE < S (advance example_config wet_state) 0 1 0
   \<and> step example_config wet_state = Inl SaturationOverLimit
   \<and> step example_config example_state = Inr (advance example_config example_state)
   \<and> S (advance extraction_config extraction_start) 0 0 0 < 0
   \<and> - LIM_VALUE \<le> S (advance extraction_config extraction_start) 0 1 0
   \<and> step extraction_config extraction_start
       = Inr (advance extraction_config extraction_start)
   \<and> S_nan (advance extraction_config (advance extraction_config extraction_start)) 0 0 0
   \<and> step extraction_config (advance extraction_config extraction_start)
       = Inr (advance extraction_config (advance extraction_config extraction_start))"
proof -
  have wn: "all_numbers wet_state"
    by (rule example_state_numbers(2))
  have h1: "0 < N_Y example_config \<and> 1 < N_Z example_config \<and> 0 < N_X example_config
      \<and> LIM_VALUE < S (advance example_config wet_state) 0 1 0
      \<and> \<not> (\<exists>y'<N_Y example_config. \<exists>z'<N_Z example_config. \<exists>x'<N_X example_config.
            S_nan (advance example_config wet_state) y' z' x')"
    unfolding wet_state_bottom advance_S_numbers(2) [OF wn]
    by (simp add: example_config_def LIM_VALUE_def numbers3_def)
  have top: "S (advance extraction_config extraction_start) 0 0 0 = 1 / 100 - 1 / 56"
    and bot: "S (advance extraction_config extraction_start) 0 1 0 = 1 / 100"
    using extraction_S_top extraction_S_bottom by simp_all
  have le: "\<forall>y'<N_Y extraction_config. \<forall>z'<N_Z extraction_config. \<forall>x'<N_X extraction_config.
      S (advance extraction_config extraction_start) y' z' x' \<le> LIM_VALUE"
  proof (intro allI impI)
    fix y' z' x'
    assume "y' < N_Y extraction_config" "z' < N_Z extraction_config"
      "x' < N_X extraction_config"
    then have "y' = 0" "x' = 0" "z' = 0 \<or> z' = 1"
      by (auto simp: extraction_config_fields)
    then show "S (advance extraction_config extraction_start) y' z' x' \<le> LIM_VALUE"
      using top bot by (auto simp: LIM_VALUE_def)
  qed
  have h3: "0 < N_Y extraction_config \<and> 0 < N_Z extraction_config
      \<and> 0 < N_X extraction_config
      \<and> S (advance extraction_config extraction_start) 0 0 0 < 0
      \<and> (\<forall>y'<N_Y extraction_config. \<forall>z'<N_Z extraction_config. \<forall>x'<N_X extraction_config.
            S (advance extraction_config extraction_start) y' z' x' \<le> LIM_VALUE)
      \<and> 0 < N_Y extraction_config \<and> 1 < N_Z extraction_config
      \<and> 0 < N_X extraction_config
      \<and> - LIM_VALUE \<le> S (advance extraction_config extraction_start) 0 1 0"
    using le extraction_S_top extraction_S_bottom
    by (simp add: extraction_config_fields LIM_VALUE_def)
  have h4: "0 < N_Y extraction_config \<and> 0 < N_Z extraction_config
      \<and> 0 < N_X extraction_config
      \<and> S_nan (advance extraction_config (advance extraction_config extraction_start)) 0 0 0"
    using extraction_S_nan2 by (simp add: extraction_config_fields)
  have a: "step example_config wet_state = Inl SaturationOverLimit"
    using guard_raises_over_limit
        [where c = example_config and s = wet_state and y = 0 and z = 1 and x = 0,
          THEN conjunct1] h1
    by (rule mp)
  have b: "advance example_config example_state = advance example_config example_state"
    using guard_raises_over_limit
        [where c = example_config and s = example_state
          and s' = "advance example_config example_state",
          THEN conjunct2, THEN conjunct1] example_step_ok
    by (rule mp)
  have c: "step extraction_config extraction_start
      = Inr (advance extraction_config extraction_start)"
    using guard_raises_over_limit
        [where c = extraction_config and s = extraction_start and y = 0 and z = 0 and x = 0
          and yb = 0 and zb = 1 and xb = 0,
          THEN conjunct2, THEN conjunct2, THEN conjunct1] h3
    by (rule mp)
  have d: "step extraction_config (advance extraction_config extraction_start)
      = Inr (advance extraction_config (advance extraction_config extraction_start))"
    using guard_raises_over_limit
        [where c = extraction_config and s = "advance extraction_config extraction_start"
          and y = 0 and z = 0 and x = 0,
          THEN conjunct2, THEN conjunct2, THEN conjunct2] h4
    by (rule mp)
  have "LIM_VALUE < S (advance example_config wet_state) 0 1 0"
    using h1 by blast
  moreover have "S (advance extraction_config extraction_start) 0 0 0 < 0"
    and "- LIM_VALUE \<le> S (advance extraction_config extraction_start) 0 1 0"
    using h3 by blast+
  ultimately show ?thesis
    using a b c d example_step_ok extraction_S_nan2 by simp
qed

text \<open>
  A column whose top cell is emptied below zero in the first step: the largest cell is
  still 0.01, the guard does not fire and the run goes on with a negative saturation.
\<close>

theorem negative_saturation_not_detected:
  "init extraction_config = Inr extraction_start
   \<and> step extraction_config extraction_start
       = Inr (advance extraction_config extraction_start)
   \<and> S (advance extraction_config extraction_start) 0 0 0 < 0"
  by (simp add: init_extraction extraction_step1 extraction_S_top)

section \<open>Boundary faces\<close>

lemma advance_frame:
  "Q_Z (advance c s) y 0 x = Q_Z s y 0 x"
  "Q_Z (advance c s) y (N_Z c) x = Q_Z s y (N_Z c) x"
  "Q_X (advance c s) y z 0 = Q_X s y z 0"
  "Q_X (advance c s) y z (N_X c) = Q_X s y z (N_X c)"
  "Q_Y (advance c s) 0 z x = Q_Y s 0 z x"
  "Q_Y (advance c s) (N_Y c) z x = Q_Y s (N_Y c) z x"
  by (simp_all add: advance_def Q_X_new_def Q_Y_new_def Q_Z_new_def)

lemma steps_frame:
  "steps c n s = Inr s' \<Longrightarrow>
     Q_Z s' y 0 x = Q_Z s y 0 x \<and> Q_Z s' y (N_Z c) x = Q_Z s y (N_Z c) x
     \<and> Q_X s' y z 0 = Q_X s y z 0 \<and> Q_X s' y z (N_X c) = Q_X s y z (N_X c)
     \<and> Q_Y s' 0 z x = Q_Y s 0 z x \<and> Q_Y s' (N_Y c) z x = Q_Y s (N_Y c) z x"
proof (induction n arbitrary: s)
  case 0
  then show ?case
    by simp
next
  case (Suc n)
  from Suc.prems obtain s1 where s1: "step c s = Inr s1" and rest: "steps c n s1 = Inr s'"
    by (auto split: sum.splits)
  from s1 have "s1 = advance c s"
    by (simp add: step_Inr)
  with Suc.IH [OF rest] show ?case
    by (simp add: advance_frame)
qed

text \<open>
  C10. After any positive number of iterations of a run, the top row of \<open>Q_Z\<close> still
  holds the injection pattern it was initialised with, and the faces on the other five
  sides of the domain still hold their initial zeros.
\<close>

theorem boundary_faces_frame:
  assumes "init c = Inr s0" and "steps c n s0 = Inr s'" and "0 < n"
  shows "Q_Z s' y 0 x = Q_Z s0 y 0 x \<and> Q_Z s' y (N_Z c) x = 0
     \<and> Q_X s' y z 0 = 0 \<and> Q_X s' y z (N_X c) = 0
     \<and> Q_Y s' 0 z x = 0 \<and> Q_Y s' (N_Y c) z x = 0"
proof -
  have nz: "0 < N_Z c"
    using assms(2,3) by (rule steps_pos_N_Z)
  have "Q_Z s0 y (N_Z c) x = 0"
    using init_fields(7) [OF assms(1)] nz by (rule Q_Z_init_below)
  then show ?thesis
    using steps_frame [OF assms(2), of y x z] init_fields(3,4) [OF assms(1)]
    by (simp add: zeros3_def)
qed

theorem boundary_faces_frame_witness:
  "init example_config = Inr example_start
   \<and> steps example_config 1 example_start = Inr (advance example_config example_start)
   \<and> (0::nat) < 1
   \<and> Q_Z (advance example_config example_start) 0 0 0 = Q_Z example_start 0 0 0
   \<and> Q_Z (advance example_config example_start) 0 (N_Z example_config) 0 = 0
   \<and> Q_X (advance example_config example_start) 0 0 0 = 0
   \<and> Q_X (advance example_config example_start) 0 0 (N_X example_config) = 0
   \<and> Q_Y (advance example_config example_start) 0 0 0 = 0
   \<and> Q_Y (advance example_config example_start) (N_Y example_config) 0 0 = 0"
proof -
  have st: "steps example_config 1 example_start
      = Inr (advance example_config example_start)"
    by (simp add: example_start_step)
  show ?thesis
    using init_example st boundary_faces_frame [OF init_example st, of 0 0 0]
    by simp
qed

section \<open>Runs without inflow\<close>

lemma still_config_fields:
  "N_Y still_config = 1" "N_Z still_config = 2" "N_X still_config = 1"
  "SATURATION_RESIDUAL still_config = 105 / 100" "SM still_config = 1 / 56"
  "Q0 still_config = 0" "S0 still_config = 1 / 100" "dL still_config = 1 / 400"
  "M_Q still_config = 5 / 6" "\<not> RANDOMIZATION_INTRINSIC_PERMEABILITY still_config"
  using SM_dL [of still_config]
  by (simp_all add: still_config_def example_config_def)

lemma init_still: "init still_config = Inr still_start"
  by (simp add: still_start_def init_def Q_Z_init_def still_config_def example_config_def)

lemma still_start_P: "P still_start = (\<lambda>y z x. - 2080)"
  by (simp add: still_start_def init_def Q_Z_init_def still_config_def example_config_def
      P_init_def S0_ini_def example_wet_def)

lemma still_p_unit: "0 < still_p" "still_p < 1"
  using rel_perm_unit [of "1 / 100" still_config] by (simp_all add: still_p_def still_config_fields)

lemma still_perm: "perm still_config still_start y z x = still_p"
  using zero_flux_perm [OF still_config_fields(6) init_still] by (simp add: still_p_def still_config_fields)

lemma still_s1_S: "S (advance still_config still_start) = (\<lambda>y z x. 1 / 100)"
  using zero_flux_first_advance(1) [OF still_config_fields(6) init_still]
  by (simp add: init_fields [OF init_still] S0_ini_def still_config_fields)

lemma still_s1_P: "P (advance still_config still_start) = (\<lambda>y z x. - 2080)"
  using zero_flux_first_advance(2) [OF still_config_fields(6) init_still]
  by (simp add: still_start_P)

lemma still_P_new: "P_new still_config still_start = (\<lambda>y z x. - 2080)"
  using still_s1_P by (simp add: advance_def)

lemma still_s1_Q_X: "Q_X (advance still_config still_start) y z x = 0"
  by (simp add: advance_def Q_X_new_def still_config_fields init_fields [OF init_still] zeros3_def)

lemma still_s1_Q_Y: "Q_Y (advance still_config still_start) y z x = 0"
  by (simp add: advance_def Q_Y_new_def still_config_fields init_fields [OF init_still] zeros3_def)

lemma still_start_Q_Z: "Q_Z still_start = zeros3"
  by (rule Q_Z_init_zero [OF still_config_fields(6) init_fields(7) [OF init_still]])

lemma still_s1_Q_Z:
  "Q_Z (advance still_config still_start) 0 0 0 = 0"
  "Q_Z (advance still_config still_start) 0 (Suc 0) 0 = MU_INVERSE * KAPPA * still_p * RHO_G"
  "Q_Z (advance still_config still_start) 0 (Suc (Suc 0)) 0 = 0"
  by (simp_all add: advance_def Q_Z_new_def still_config_fields still_start_Q_Z zeros3_def
      k_rnd_q2_plain still_P_new perm_sqrt_square [OF still_perm still_perm] still_p_def mult.assoc)

lemma still_s1_bound_flux:
  "bound_flux (advance still_config still_start) 0 0
     = MU_INVERSE * KAPPA * still_p * (RHO_G - 832000)"
  by (simp add: advance_def bound_flux_new_def still_config_fields k_rnd_plain still_P_new
      still_perm)


lemma still_q_bounds: "0 < still_q" "still_q < 1 / 100"
proof -
  have c: "0 < MU_INVERSE * KAPPA * RHO_G" "MU_INVERSE * KAPPA * RHO_G < 1 / 100"
    by (simp_all add: MU_INVERSE_def MU_def KAPPA_def RHO_G_def RHO_def G_def)
  have e: "still_q = (MU_INVERSE * KAPPA * RHO_G) * still_p"
    by (simp add: still_q_def)
  show "0 < still_q"
    unfolding e using c(1) still_p_unit(1) by (rule mult_pos_pos)
  have "(MU_INVERSE * KAPPA * RHO_G) * still_p < (MU_INVERSE * KAPPA * RHO_G) * 1"
    using c(1) still_p_unit(2) by (intro mult_strict_left_mono)
  with c(2) show "still_q < 1 / 100"
    unfolding e by simp
qed

lemma still_bf_neg: "MU_INVERSE * KAPPA * still_p * (RHO_G - 832000) < 0"
proof -
  have "0 < MU_INVERSE * KAPPA * still_p"
    using still_p_unit(1) by (simp add: MU_INVERSE_def MU_def KAPPA_def)
  moreover have "RHO_G - 832000 < 0"
    by (simp add: RHO_G_def RHO_def G_def)
  ultimately show ?thesis
    by (rule mult_pos_neg)
qed

lemma still_s2_top:
  "S (advance still_config (advance still_config still_start)) 0 0 0 = 1 / 100 - still_q / 56"
proof -
  have "S (advance still_config (advance still_config still_start)) 0 0 0
      = S (advance still_config still_start) 0 0 0
        + SM still_config * Q_cell (advance still_config still_start) 0 0 0"
    by (rule advance_S_inner) (simp add: still_config_fields)
  also have "\<dots> = 1 / 100 - still_q / 56"
    by (simp add: Q_cell_def still_config_fields still_s1_S still_s1_Q_X still_s1_Q_Y
        still_s1_Q_Z still_q_def)
  finally show ?thesis .
qed

lemma still_s2_bottom:
  "S (advance still_config (advance still_config still_start)) 0 (Suc 0) 0
     = 1 / 100 + still_q / 56"
proof -
  have "S (advance still_config (advance still_config still_start)) 0 (Suc 0) 0
      = max (S (advance still_config still_start) 0 (Suc 0) 0
             + SM still_config * Q_cell (advance still_config still_start) 0 (Suc 0) 0
             + SM still_config * bound_flux (advance still_config still_start) 0 0)
          (min (S (advance still_config still_start) 0 (Suc 0) 0
                + SM still_config * Q_cell (advance still_config still_start) 0 (Suc 0) 0)
             (SATURATION_RESIDUAL still_config))"
    by (rule advance_S_bottom) (simp add: still_config_fields)
  also have "\<dots> = max (1 / 100 + still_q / 56
                + (MU_INVERSE * KAPPA * still_p * (RHO_G - 832000)) / 56)
          (min (1 / 100 + still_q / 56) (105 / 100))"
    by (simp add: Q_cell_def still_config_fields still_s1_S still_s1_Q_X still_s1_Q_Y
        still_s1_Q_Z still_s1_bound_flux still_q_def)
  also have "\<dots> = 1 / 100 + still_q / 56"
    using still_q_bounds still_bf_neg by (simp add: max_def min_def)
  finally show ?thesis .
qed

lemma flat_still: "flat still_config a = [a 0 0 0, a 0 1 0]"
  by (rule flat_121) (simp_all add: still_config_fields)

lemma still_s1_numbers: "all_numbers (advance still_config still_start)"
proof (rule advance_all_numbers [OF init_fields(8) [OF init_still]])
  show "0 < N_Z still_config"
    by (simp add: still_config_fields)
  show "\<not> rel_perm_nan still_config (S_new still_config still_start y z x) False" for y z x
    using rel_perm_nan_unit [of "1 / 100" still_config]
    by (simp add: zero_flux_S_new [OF still_config_fields(6) init_still] S0_ini_def
        still_config_fields)
qed

lemma still_step1: "step still_config still_start = Inr (advance still_config still_start)"
  by (rule step_list [OF init_fields(8) [OF init_still] _ flat_still])
    (simp_all add: still_config_fields still_s1_S LIM_VALUE_def)

lemma still_step2:
  "step still_config (advance still_config still_start)
     = Inr (advance still_config (advance still_config still_start))"
  using still_q_bounds
  by (intro step_list [OF still_s1_numbers _ flat_still])
    (simp_all add: still_config_fields still_s2_top still_s2_bottom LIM_VALUE_def)









subsection \<open>A single layer\<close>

lemma uniform_init:
  assumes "Q0 c = 0" "init c = Inr s0"
  shows "uniform_state c s0"
  using init_fields [OF assms(2)] Q_Z_init_zero [OF assms(1), of "Q_Z s0"]
  by (simp add: uniform_state_def)

lemma uniform_advance:
  assumes u: "uniform_state c s" and nz: "N_Z c = 1"
    and r: "S0 c \<le> SATURATION_RESIDUAL c"
    and p: "\<not> rel_perm_nan c (S0 c) False"
    and b: "\<And>y x. y < N_Y c \<Longrightarrow> x < N_X c \<Longrightarrow> SM c * bottom_flux_uniform c y x \<le> 0"
  shows "uniform_state c (advance c s)"
proof -
  from u have f: "S s = S0_ini c" "P s = P_init c" "Q_X s = zeros3" "Q_Y s = zeros3"
    "Q_Z s = zeros3"
    and n: "all_numbers s" and bf: "\<And>y x. SM c * bound_flux s y x \<le> 0"
    by (simp_all add: uniform_state_def)
  have q: "Q_cell s = zeros3"
    by (simp add: fun_eq_iff Q_cell_def f zeros3_def)
  have sn: "S_new c s = S0_ini c"
  proof (intro ext)
    fix y z x
    show "S_new c s y z x = S0_ini c y z x"
      using bf [of y x] r
      by (simp add: S_new_def S_flux_def bound_lim_def q f zeros3_def S0_ini_def max_def
          min_def)
  qed
  have pn: "P_new c s = P_init c"
    by (simp add: fun_eq_iff P_new_def P_relaxed_def wet_def drain_def Let_def sn f)
  have pm: "perm c s y z x = rel_perm c (S0 c)" for y z x
    by (simp add: perm_def sn S0_ini_def)
  have pu: "P_init c y z x = P_init c y' z' x'" for y z x y' z' x'
    by (simp add: P_init_def S0_ini_def)
  have qx: "Q_X_new c s = zeros3"
    using pu by (simp add: fun_eq_iff Q_X_new_def pn f zeros3_def)
  have qy: "Q_Y_new c s = zeros3"
    using pu by (simp add: fun_eq_iff Q_Y_new_def pn f zeros3_def)
  have qz: "Q_Z_new c s = zeros3"
    by (simp add: fun_eq_iff Q_Z_new_def nz f zeros3_def)
  have "bound_flux_new c s y x
      = (if y < N_Y c \<and> x < N_X c then bottom_flux_uniform c y x else bound_flux s y x)"
    for y x
    by (simp add: bound_flux_new_def bottom_flux_uniform_def pm pn)
  then have bn: "SM c * bound_flux_new c s y x \<le> 0" for y x
    using b [of y x] bf [of y x] by simp
  have an: "all_numbers (advance c s)"
    by (rule advance_all_numbers [OF n]) (simp_all add: nz sn S0_ini_def p)
  have "S (advance c s) = S0_ini c" "P (advance c s) = P_init c"
    "Q_X (advance c s) = zeros3" "Q_Y (advance c s) = zeros3" "Q_Z (advance c s) = zeros3"
    "\<forall>y x. SM c * bound_flux (advance c s) y x \<le> 0"
    using bn by (simp_all add: advance_def sn pn qx qy qz)
  with an show ?thesis
    unfolding uniform_state_def by blast
qed

lemma uniform_steps:
  assumes "uniform_state c s" and "N_Z c = 1" and "S0 c \<le> SATURATION_RESIDUAL c"
    and "\<not> rel_perm_nan c (S0 c) False"
    and "\<And>y x. y < N_Y c \<Longrightarrow> x < N_X c \<Longrightarrow> SM c * bottom_flux_uniform c y x \<le> 0"
    and "steps c n s = Inr s'"
  shows "uniform_state c s'"
  using assms(1,6)
proof (induction n arbitrary: s)
  case 0
  then show ?case
    by simp
next
  case (Suc n)
  from Suc.prems(2) obtain s1 where s1: "step c s = Inr s1" and rest: "steps c n s1 = Inr s'"
    by (auto split: sum.splits)
  have "s1 = advance c s"
    using step_Inr [OF s1] by simp
  then have "uniform_state c s1"
    using uniform_advance [OF Suc.prems(1) assms(2-5)] by simp
  from Suc.IH [OF this rest] show ?case .
qed

lemma flat_212:
  "N_Y c = 2 \<Longrightarrow> N_Z c = 1 \<Longrightarrow> N_X c = 2 \<Longrightarrow> flat c a = [a 0 0 0, a 0 0 1, a 1 0 0, a 1 0 1]"
  by (simp add: flat_def upt_rec)

lemma layer_config_fields:
  "N_Y layer_config = 2" "N_Z layer_config = 1" "N_X layer_config = 2"
  "SATURATION_RESIDUAL layer_config = 105 / 100" "SM layer_config = 1 / 56"
  "Q0 layer_config = 0" "S0 layer_config = 1 / 100" "dL layer_config = 1 / 400"
  "M_Q layer_config = 5 / 6" "\<not> RANDOMIZATION_INTRINSIC_PERMEABILITY layer_config"
  "WHICH_BRANCH layer_config = ''wet''" "retention_curve_wet layer_config = example_wet"
  using SM_dL [of layer_config]
  by (simp_all add: layer_config_def example_config_def)

lemma init_layer: "init layer_config = Inr layer_start"
  by (simp add: layer_start_def init_def Q_Z_init_def layer_config_def example_config_def)

lemma rel_perm_nan_layer: "\<not> rel_perm_nan layer_config (S0 layer_config) False"
  using rel_perm_nan_unit [of "1 / 100" layer_config] by (simp add: layer_config_fields)

lemma layer_bottom_flux: "SM layer_config * bottom_flux_uniform layer_config y x \<le> 0"
proof -
  have "0 \<le> MU_INVERSE * KAPPA * rel_perm layer_config (1 / 100)"
    using rel_perm_nonneg [of layer_config "1 / 100"]
    by (simp add: MU_INVERSE_def MU_def KAPPA_def)
  moreover have "RHO_G - 832000 \<le> 0"
    by (simp add: RHO_G_def RHO_def G_def)
  ultimately have "MU_INVERSE * KAPPA * rel_perm layer_config (1 / 100) * (RHO_G - 832000) \<le> 0"
    by (rule mult_nonneg_nonpos)
  then show ?thesis
    by (simp add: bottom_flux_uniform_def layer_config_fields k_rnd_plain P_init_def
        S0_ini_def example_wet_def)
qed

lemma layer_uniform:
  "uniform_state layer_config layer_start"
  "uniform_state layer_config (advance layer_config layer_start)"
proof -
  show u: "uniform_state layer_config layer_start"
    by (rule uniform_init [OF layer_config_fields(6) init_layer])
  show "uniform_state layer_config (advance layer_config layer_start)"
    by (rule uniform_advance [OF u layer_config_fields(2) _ rel_perm_nan_layer
          layer_bottom_flux])
      (simp add: layer_config_fields)
qed

lemma layer_uniform_S:
  "uniform_state layer_config s \<Longrightarrow> S (advance layer_config s) = (\<lambda>y z x. 1 / 100)"
  using uniform_advance [OF _ layer_config_fields(2) _ rel_perm_nan_layer layer_bottom_flux,
      of s]
  by (simp add: uniform_state_def S0_ini_def layer_config_fields)

lemma layer_uniform_step:
  assumes "uniform_state layer_config s"
  shows "step layer_config s = Inr (advance layer_config s)"
proof -
  have "all_numbers s"
    using assms by (simp add: uniform_state_def)
  from step_list [OF this _ flat_212 [OF layer_config_fields(1-3)]]
  show ?thesis
    by (simp add: layer_uniform_S [OF assms] layer_config_fields LIM_VALUE_def)
qed

lemma layer_steps:
  "steps layer_config 1 layer_start = Inr (advance layer_config layer_start)"
  "steps layer_config 2 layer_start
     = Inr (advance layer_config (advance layer_config layer_start))"
  by (simp_all add: numeral_2_eq_2 layer_uniform_step [OF layer_uniform(1)]
      layer_uniform_step [OF layer_uniform(2)])

text \<open>
  C7, as the code has it. With \<open>Q0 = 0\<close> all fluxes are zero at the start, so on every
  grid the first step leaves the saturation at \<open>S0\<close> and the pressure at its initial
  branch value, and neither holds a not-a-number. On a grid of a single layer
  (\<open>N_Z = 1\<close>) there is no interior \<open>z\<close> face for gravity to drive a flux through: when
  \<open>S0\<close> is at most the residual threshold, the relative permeability at \<open>S0\<close> is a
  number and the bottom boundary flux of the initial field lets no water in, the two
  fields keep these values after every number of steps.
\<close>

theorem zero_flux_stays:
  assumes "Q0 c = 0" and "init c = Inr s0"
  shows "(steps c 1 s0 = Inr s1 \<longrightarrow>
           S s1 y z x = S0 c \<and> \<not> S_nan s1 y z x
           \<and> P s1 y z x = (if WHICH_BRANCH c = ''wet'' then retention_curve_wet c (S0 c)
                           else retention_curve_drain c (S0 c))
           \<and> \<not> P_nan s1 y z x)
       \<and> (N_Z c = 1 \<and> S0 c \<le> SATURATION_RESIDUAL c \<and> \<not> rel_perm_nan c (S0 c) False
          \<and> (\<forall>y'<N_Y c. \<forall>x'<N_X c. SM c * bottom_flux_uniform c y' x' \<le> 0)
          \<and> steps c n s0 = Inr s' \<longrightarrow>
           S s' y z x = S0 c \<and> \<not> S_nan s' y z x
           \<and> P s' y z x = (if WHICH_BRANCH c = ''wet'' then retention_curve_wet c (S0 c)
                           else retention_curve_drain c (S0 c))
           \<and> \<not> P_nan s' y z x)"
proof (intro conjI impI)
  have i: "S s0 y z x = S0 c"
    "P s0 y z x = (if WHICH_BRANCH c = ''wet'' then retention_curve_wet c (S0 c)
                           else retention_curve_drain c (S0 c))"
    by (simp_all add: init_fields [OF assms(2)] S0_ini_def P_init_def)
  have n0: "all_numbers s0"
    by (rule init_fields(8) [OF assms(2)])
  {
    assume "steps c 1 s0 = Inr s1"
    then have "step c s0 = Inr s1"
      by (simp split: sum.splits)
    then have e: "s1 = advance c s0"
      by (simp add: step_Inr)
    then have "S s1 = S s0" "P s1 = P s0"
      by (simp_all add: zero_flux_first_advance [OF assms])
    with i show "S s1 y z x = S0 c"
      and "P s1 y z x = (if WHICH_BRANCH c = ''wet'' then retention_curve_wet c (S0 c)
                           else retention_curve_drain c (S0 c))"
      by simp_all
    show "\<not> S_nan s1 y z x" and "\<not> P_nan s1 y z x"
      unfolding e
      by (simp_all add: advance_S_numbers(2) [OF n0] advance_P_numbers(2) [OF n0]
          numbers3_def)
  }
  {
    assume h: "N_Z c = 1 \<and> S0 c \<le> SATURATION_RESIDUAL c \<and> \<not> rel_perm_nan c (S0 c) False
          \<and> (\<forall>y'<N_Y c. \<forall>x'<N_X c. SM c * bottom_flux_uniform c y' x' \<le> 0)
          \<and> steps c n s0 = Inr s'"
    have "uniform_state c s'"
      by (rule uniform_steps [OF uniform_init [OF assms], of n]) (use h in simp_all)
    then have u: "S s' = S0_ini c" "P s' = P_init c" "all_numbers s'"
      by (simp_all add: uniform_state_def)
    show "S s' y z x = S0 c"
      and "P s' y z x = (if WHICH_BRANCH c = ''wet'' then retention_curve_wet c (S0 c)
                           else retention_curve_drain c (S0 c))"
      by (simp_all add: u S0_ini_def P_init_def)
    show "\<not> S_nan s' y z x" and "\<not> P_nan s' y z x"
      using u(3) by (simp_all add: all_numbers_def numbers3_def)
  }
qed

theorem zero_flux_stays_witness:
  "Q0 layer_config = 0 \<and> init layer_config = Inr layer_start
   \<and> steps layer_config 1 layer_start = Inr (advance layer_config layer_start)
   \<and> S (advance layer_config layer_start) 1 0 1 = S0 layer_config
   \<and> \<not> S_nan (advance layer_config layer_start) 1 0 1
   \<and> P (advance layer_config layer_start) 1 0 1 = (if WHICH_BRANCH layer_config = ''wet''
        then retention_curve_wet layer_config (S0 layer_config)
        else retention_curve_drain layer_config (S0 layer_config))
   \<and> \<not> P_nan (advance layer_config layer_start) 1 0 1
   \<and> N_Z layer_config = 1 \<and> S0 layer_config \<le> SATURATION_RESIDUAL layer_config
   \<and> \<not> rel_perm_nan layer_config (S0 layer_config) False
   \<and> SM layer_config * bottom_flux_uniform layer_config 1 1 \<le> 0
   \<and> steps layer_config 2 layer_start
       = Inr (advance layer_config (advance layer_config layer_start))
   \<and> S (advance layer_config (advance layer_config layer_start)) 1 0 1 = S0 layer_config
   \<and> \<not> S_nan (advance layer_config (advance layer_config layer_start)) 1 0 1
   \<and> P (advance layer_config (advance layer_config layer_start)) 1 0 1
       = (if WHICH_BRANCH layer_config = ''wet''
          then retention_curve_wet layer_config (S0 layer_config)
          else retention_curve_drain layer_config (S0 layer_config))
   \<and> \<not> P_nan (advance layer_config (advance layer_config layer_start)) 1 0 1"
proof -
  have r: "S0 layer_config \<le> SATURATION_RESIDUAL layer_config"
    by (simp add: layer_config_fields)
  have b: "\<forall>y'<N_Y layer_config. \<forall>x'<N_X layer_config.
      SM layer_config * bottom_flux_uniform layer_config y' x' \<le> 0"
    using layer_bottom_flux by blast
  show ?thesis
    using zero_flux_stays [OF layer_config_fields(6) init_layer,
        where ?s1.0 = "advance layer_config layer_start"
          and s' = "advance layer_config (advance layer_config layer_start)" and n = 2
          and y = 1 and z = 0 and x = 1]
      layer_steps layer_config_fields(2,6) init_layer r b rel_perm_nan_layer
      layer_bottom_flux [of 1 1]
    by blast
qed

text \<open>
  In the column of two cells at saturation 0.01 the second step moves water from the top
  cell to the bottom cell although nothing flows in.
\<close>

theorem zero_flux_gravity_drains:
  "Q0 still_config = 0
   \<and> init still_config = Inr still_start
   \<and> steps still_config 2 still_start
       = Inr (advance still_config (advance still_config still_start))
   \<and> S (advance still_config (advance still_config still_start)) 0 0 0 < S still_start 0 0 0"
proof -
  have "steps still_config 2 still_start
      = Inr (advance still_config (advance still_config still_start))"
    by (simp add: numeral_2_eq_2 still_step1 still_step2)
  moreover have "S still_start 0 0 0 = 1 / 100"
    by (simp add: init_fields [OF init_still] S0_ini_def still_config_fields)
  ultimately show ?thesis
    using still_q_bounds(1) by (simp add: still_config_fields init_still still_s2_top)
qed

section \<open>Mass balance report\<close>









section \<open>Bottom boundary\<close>
















text \<open>
  The bottom boundary update, cell by cell. The clamp is the minimum of the saturation
  after the flux update and the residual threshold, and the update leaves the maximum
  of \<open>S_new + SM * bound_flux\<close> and the clamp, which is never below the clamp. When that
  saturation does not exceed the threshold the bottom layer never ends below it, and it
  is left unchanged when \<open>SM * bound_flux \<le> 0\<close>.
\<close>

lemma bottom_boundary_update:
  assumes "Suc z = N_Z c"
  shows "bound_lim c s y x = min (S_flux c s y z x) (SATURATION_RESIDUAL c)
     \<and> S (advance c s) y z x
         = max (S_flux c s y z x + SM c * bound_flux s y x) (bound_lim c s y x)
     \<and> bound_lim c s y x \<le> S (advance c s) y z x
     \<and> (S_flux c s y z x \<le> SATURATION_RESIDUAL c \<longrightarrow>
          S_flux c s y z x \<le> S (advance c s) y z x
          \<and> (SM c * bound_flux s y x \<le> 0 \<longrightarrow> S (advance c s) y z x = S_flux c s y z x))"
proof -
  have "N_Z c - 1 = z"
    using assms by arith
  then show ?thesis
    using assms by (simp add: advance_def S_new_def bound_lim_def)
qed


section \<open>Mass conservation\<close>

lemma sum_Q_cell:
  assumes fx: "\<And>y z. Q_X s y z 0 = 0" "\<And>y z. Q_X s y z (N_X c) = 0"
    and fy: "\<And>z x. Q_Y s 0 z x = 0" "\<And>z x. Q_Y s (N_Y c) z x = 0"
    and fz: "\<And>y x. Q_Z s y (N_Z c) x = 0"
  shows "(\<Sum>y<N_Y c. \<Sum>z<N_Z c. \<Sum>x<N_X c. Q_cell s y z x) = (\<Sum>y<N_Y c. \<Sum>x<N_X c. Q_Z s y 0 x)"
proof -
  have X: "(\<Sum>y<N_Y c. \<Sum>z<N_Z c. \<Sum>x<N_X c. Q_X s y z x - Q_X s y z (Suc x)) = 0"
    by (simp add: sum_lessThan_telescope' fx)
  have "(\<Sum>y<N_Y c. \<Sum>z<N_Z c. \<Sum>x<N_X c. Q_Y s y z x - Q_Y s (Suc y) z x)
      = (\<Sum>z<N_Z c. \<Sum>x<N_X c. \<Sum>y<N_Y c. Q_Y s y z x - Q_Y s (Suc y) z x)"
    by (subst sum.swap, rule sum.cong [OF refl], rule sum.swap)
  moreover have "\<And>z x. (\<Sum>y<N_Y c. Q_Y s y z x - Q_Y s (Suc y) z x) = 0"
    using sum_lessThan_telescope' [of "\<lambda>y. Q_Y s y _ _" "N_Y c"] by (simp add: fy)
  ultimately have Y: "(\<Sum>y<N_Y c. \<Sum>z<N_Z c. \<Sum>x<N_X c. Q_Y s y z x - Q_Y s (Suc y) z x) = 0"
    by simp
  have "(\<Sum>y<N_Y c. \<Sum>z<N_Z c. \<Sum>x<N_X c. Q_Z s y z x - Q_Z s y (Suc z) x)
      = (\<Sum>y<N_Y c. \<Sum>x<N_X c. \<Sum>z<N_Z c. Q_Z s y z x - Q_Z s y (Suc z) x)"
    by (rule sum.cong [OF refl], rule sum.swap)
  moreover have "\<And>y x. (\<Sum>z<N_Z c. Q_Z s y z x - Q_Z s y (Suc z) x) = Q_Z s y 0 x"
    using sum_lessThan_telescope' [of "\<lambda>z. Q_Z s _ z _" "N_Z c"] by (simp add: fz)
  ultimately have Z: "(\<Sum>y<N_Y c. \<Sum>z<N_Z c. \<Sum>x<N_X c. Q_Z s y z x - Q_Z s y (Suc z) x)
      = (\<Sum>y<N_Y c. \<Sum>x<N_X c. Q_Z s y 0 x)"
    by simp
  have "(\<Sum>y<N_Y c. \<Sum>z<N_Z c. \<Sum>x<N_X c. Q_cell s y z x)
      = (\<Sum>y<N_Y c. \<Sum>z<N_Z c. \<Sum>x<N_X c. Q_X s y z x - Q_X s y z (Suc x))
        + (\<Sum>y<N_Y c. \<Sum>z<N_Z c. \<Sum>x<N_X c. Q_Y s y z x - Q_Y s (Suc y) z x)
        + (\<Sum>y<N_Y c. \<Sum>z<N_Z c. \<Sum>x<N_X c. Q_Z s y z x - Q_Z s y (Suc z) x)"
    unfolding sum.distrib [symmetric] by (simp add: Q_cell_def algebra_simps)
  then show ?thesis
    by (simp add: X Y Z)
qed


lemma step_cell_le_LIM:
  assumes "step c s = Inr s1" "y < N_Y c" "z < N_Z c" "x < N_X c"
    and nn: "\<not> (\<exists>y<N_Y c. \<exists>z<N_Z c. \<exists>x<N_X c. S_nan s1 y z x)"
  shows "S s1 y z x \<le> LIM_VALUE"
proof -
  have d: "0 < N_Y c" "0 < N_Z c" "0 < N_X c"
    using assms(2-4) by auto
  have s1: "s1 = advance c s"
    using step_Inr [OF assms(1)] by simp
  have "\<not> LIM_VALUE < \<bar>Max (set (flat c (S s1)))\<bar>"
    using assms(1) nn unfolding step_eq [OF d] s1 by (simp split: if_splits)
  moreover have "S s1 y z x \<le> Max (set (flat c (S s1)))"
    using assms(2-4) by (rule Max_flat_ge)
  ultimately show ?thesis
    by linarith
qed

lemma step_bottom_quiet:
  assumes st: "step c s = Inr s1"
    and res: "1 \<le> SATURATION_RESIDUAL c"
    and bf: "SM c * bound_flux s y x \<le> 0"
    and cell: "y < N_Y c" "z < N_Z c" "x < N_X c"
    and nn: "\<not> (\<exists>y<N_Y c. \<exists>z<N_Z c. \<exists>x<N_X c. S_nan s1 y z x)"
  shows "S s1 y z x = S s y z x + SM c * Q_cell s y z x"
proof (cases "Suc z = N_Z c")
  case False
  then show ?thesis
    using step_Inr [OF st] by (simp add: advance_S_inner)
next
  case True
  define a where "a = S s y z x + SM c * Q_cell s y z x"
  have e: "S s1 y z x = max (a + SM c * bound_flux s y x) (min a (SATURATION_RESIDUAL c))"
    using step_Inr [OF st] advance_S_bottom [OF True, of s y x] by (simp add: a_def)
  have "S s1 y z x < SATURATION_RESIDUAL c"
    using step_cell_le_LIM [OF st cell nn] res LIM_VALUE_bounds(2) by linarith
  with e have "a \<le> SATURATION_RESIDUAL c"
    by (simp add: max_def min_def split: if_splits)
  with e bf show ?thesis
    by (simp add: a_def max_def min_def)
qed

lemma step_conservation:
  assumes st: "step c s = Inr s1"
    and res: "1 \<le> SATURATION_RESIDUAL c"
    and bf: "\<And>y x. y < N_Y c \<Longrightarrow> x < N_X c \<Longrightarrow> SM c * bound_flux s y x \<le> 0"
    and fx: "\<And>y z. Q_X s y z 0 = 0" "\<And>y z. Q_X s y z (N_X c) = 0"
    and fy: "\<And>z x. Q_Y s 0 z x = 0" "\<And>z x. Q_Y s (N_Y c) z x = 0"
    and fz: "\<And>y x. Q_Z s y (N_Z c) x = 0"
    and nn: "\<not> (\<exists>y<N_Y c. \<exists>z<N_Z c. \<exists>x<N_X c. S_nan s1 y z x)"
  shows "np_sum c (S s1) = np_sum c (S s) + SM c * top_flux_sum c s"
proof -
  have "np_sum c (S s1)
      = (\<Sum>y<N_Y c. \<Sum>z<N_Z c. \<Sum>x<N_X c. S s y z x + SM c * Q_cell s y z x)"
    unfolding np_sum_eq
    by (intro sum.cong refl) (simp add: step_bottom_quiet [OF st res bf _ _ _ nn])
  also have "\<dots> = np_sum c (S s)
      + SM c * (\<Sum>y<N_Y c. \<Sum>z<N_Z c. \<Sum>x<N_X c. Q_cell s y z x)"
    by (simp add: np_sum_eq sum.distrib sum_distrib_left)
  also have "\<dots> = np_sum c (S s) + SM c * top_flux_sum c s"
    by (simp add: sum_Q_cell [OF fx fy fz] top_flux_sum_eq)
  finally show ?thesis .
qed

lemma top_flux_sum_advance: "top_flux_sum c (advance c s) = top_flux_sum c s"
  by (simp add: top_flux_sum_eq advance_frame)

lemma steps_conservation:
  assumes "steps c n s = Inr s'"
    and res: "1 \<le> SATURATION_RESIDUAL c"
    and bf: "\<And>k sk y x. k < n \<Longrightarrow> steps c k s = Inr sk \<Longrightarrow> y < N_Y c \<Longrightarrow> x < N_X c
        \<Longrightarrow> SM c * bound_flux sk y x \<le> 0"
    and fx: "\<And>y z. Q_X s y z 0 = 0" "\<And>y z. Q_X s y z (N_X c) = 0"
    and fy: "\<And>z x. Q_Y s 0 z x = 0" "\<And>z x. Q_Y s (N_Y c) z x = 0"
    and fz: "\<And>y x. Q_Z s y (N_Z c) x = 0"
    and nn: "\<And>k sk. k \<le> n \<Longrightarrow> steps c k s = Inr sk
        \<Longrightarrow> \<not> (\<exists>y<N_Y c. \<exists>z<N_Z c. \<exists>x<N_X c. S_nan sk y z x)"
  shows "np_sum c (S s') = np_sum c (S s) + real n * SM c * top_flux_sum c s"
  using assms
proof (induction n arbitrary: s)
  case 0
  then show ?case
    by simp
next
  case (Suc n)
  from Suc.prems(1) obtain s1 where s1: "step c s = Inr s1" and rest: "steps c n s1 = Inr s'"
    by (auto split: sum.splits)
  have adv: "s1 = advance c s"
    using step_Inr [OF s1] by simp
  have bf0: "\<And>y x. y < N_Y c \<Longrightarrow> x < N_X c \<Longrightarrow> SM c * bound_flux s y x \<le> 0"
    using Suc.prems(3) [of 0 s] by simp
  have nn1: "\<not> (\<exists>y<N_Y c. \<exists>z<N_Z c. \<exists>x<N_X c. S_nan s1 y z x)"
    using Suc.prems(9) [of 1 s1] s1 by simp
  have one: "np_sum c (S s1) = np_sum c (S s) + SM c * top_flux_sum c s"
    using s1 res bf0 Suc.prems(4-8) nn1 by (rule step_conservation)
  have nn': "\<And>k sk. k \<le> n \<Longrightarrow> steps c k s1 = Inr sk
        \<Longrightarrow> \<not> (\<exists>y<N_Y c. \<exists>z<N_Z c. \<exists>x<N_X c. S_nan sk y z x)"
    using Suc.prems(9) [of "Suc _" _] s1 by simp
  have bf1: "\<And>k sk y x. k < n \<Longrightarrow> steps c k s1 = Inr sk \<Longrightarrow> y < N_Y c \<Longrightarrow> x < N_X c
        \<Longrightarrow> SM c * bound_flux sk y x \<le> 0"
    using Suc.prems(3) [of "Suc _" _] s1 by simp
  have "np_sum c (S s') = np_sum c (S s1) + real n * SM c * top_flux_sum c s1"
    using rest res bf1
    by (rule Suc.IH) (simp_all add: adv advance_frame Suc.prems(4-8) nn' [unfolded adv])
  then show ?case
    using one by (simp add: adv top_flux_sum_advance algebra_simps)
qed

text \<open>
  For a run with residual threshold at least 1 in which the term \<open>SM * bound_flux\<close> is
  never positive at the start of a step and the saturation never holds a
  not-a-number, the total saturation gained after \<open>n\<close> steps is exactly \<open>n * SM\<close> times
  the sum of the top-face flux, in exact arithmetic.
\<close>

lemma balance_without_bottom_inflow:
  assumes "init c = Inr s0" and "steps c n s0 = Inr s'"
    and "1 \<le> SATURATION_RESIDUAL c"
    and "\<forall>k<n. \<forall>sk. steps c k s0 = Inr sk \<longrightarrow>
          (\<forall>y<N_Y c. \<forall>x<N_X c. SM c * bound_flux sk y x \<le> 0)"
    and "\<forall>k\<le>n. \<forall>sk. steps c k s0 = Inr sk \<longrightarrow>
          \<not> (\<exists>y<N_Y c. \<exists>z<N_Z c. \<exists>x<N_X c. S_nan sk y z x)"
  shows "np_sum c (S s') - np_sum c (S0_ini c) = real n * SM c * top_flux_sum c s'"
proof (cases "n = 0")
  case True
  with assms(2) have "s' = s0"
    by simp
  with True show ?thesis
    by (simp add: init_fields [OF assms(1)])
next
  case False
  then have nz: "0 < N_Z c"
    using steps_pos_N_Z [OF assms(2)] by simp
  have fz: "\<And>y x. Q_Z s0 y (N_Z c) x = 0"
    using init_fields(7) [OF assms(1)] nz by (rule Q_Z_init_below)
  have f: "\<And>y z. Q_X s0 y z 0 = 0" "\<And>y z. Q_X s0 y z (N_X c) = 0"
    "\<And>z x. Q_Y s0 0 z x = 0" "\<And>z x. Q_Y s0 (N_Y c) z x = 0"
    by (simp_all add: init_fields [OF assms(1)] zeros3_def)
  have bf: "\<And>k sk y x. k < n \<Longrightarrow> steps c k s0 = Inr sk \<Longrightarrow> y < N_Y c \<Longrightarrow> x < N_X c
        \<Longrightarrow> SM c * bound_flux sk y x \<le> 0"
    using assms(4) by blast
  have nn: "\<And>k sk. k \<le> n \<Longrightarrow> steps c k s0 = Inr sk
        \<Longrightarrow> \<not> (\<exists>y<N_Y c. \<exists>z<N_Z c. \<exists>x<N_X c. S_nan sk y z x)"
    using assms(5) by blast
  have "np_sum c (S s') = np_sum c (S s0) + real n * SM c * top_flux_sum c s0"
    using assms(2,3) bf f fz nn by (rule steps_conservation)
  moreover have "top_flux_sum c s' = top_flux_sum c s0"
    using steps_frame [OF assms(2)] by (simp add: top_flux_sum_eq)
  ultimately show ?thesis
    by (simp add: init_fields [OF assms(1)])
qed


end
